theory Spec2Isabelle
  imports Main "HOL-Library.AList" "HOL-Library.Char_ord" "HOL-Library.List_Lexorder"
    "HOL-Library.Multiset"
begin

section \<open>JavaScript values, strings and rows\<close>

text \<open>
  The controller \<^verbatim>\<open>accountRelatedRecords.js\<close> handles records delivered by the Apex
  gateway as plain JavaScript objects. A cell of such an object is a primitive value.
  Numeric cells are integers in this development (the comparator of \<^verbatim>\<open>_sortData\<close>
  only tests a number for zero and compares it), and a string is a list of code units
  below 256, ordered by code unit as JavaScript orders strings.
\<close>

datatype jsval = JUndefined | JNull | JBool bool | JNum int | JStr string

datatype js_error = TypeError | ApexError string

type_synonym row = "(string \<times> jsval) list"

text \<open>Property access \<^verbatim>\<open>record[fieldName]\<close>: a missing property reads as \<^verbatim>\<open>undefined\<close>.\<close>

definition get_field :: "row \<Rightarrow> string \<Rightarrow> jsval" where
  "get_field record fieldName =
     (case map_of record fieldName of None \<Rightarrow> JUndefined | Some v \<Rightarrow> v)"

text \<open>Truthiness, and the operator \<^verbatim>\<open>a || b\<close>.\<close>

fun js_truthy :: "jsval \<Rightarrow> bool" where
  "js_truthy JUndefined = False"
| "js_truthy JNull = False"
| "js_truthy (JBool b) = b"
| "js_truthy (JNum n) = (n \<noteq> 0)"
| "js_truthy (JStr s) = (s \<noteq> [])"

definition js_or :: "jsval \<Rightarrow> jsval \<Rightarrow> jsval" where
  "js_or a b = (if js_truthy a then a else b)"

text \<open>
  \<^verbatim>\<open>String.prototype.trim\<close> removes white space and line terminators from both ends;
  below 256 these are the code units 9 to 13, 32 and 160.
\<close>

definition is_space :: "char \<Rightarrow> bool" where
  "is_space c = ((of_char c :: nat) \<in> {9, 10, 11, 12, 13, 32, 160})"

definition trim :: "string \<Rightarrow> string" where
  "trim s = rev (dropWhile is_space (rev (dropWhile is_space s)))"

text \<open>
  \<^verbatim>\<open>String.prototype.toLowerCase\<close>: below 256 the upper-case letters are A to Z and
  the code units 192 to 222 without the multiplication sign 215; each lies 32 below its
  lower-case form.
\<close>

definition lower_char :: "char \<Rightarrow> char" where
  "lower_char c =
     (let n = (of_char c :: nat)
      in if (65 \<le> n \<and> n \<le> 90) \<or> (192 \<le> n \<and> n \<le> 222 \<and> n \<noteq> 215)
         then char_of (n + 32) else c)"

definition toLowerCase :: "string \<Rightarrow> string" where
  "toLowerCase s = map lower_char s"

text \<open>
  Conversion of a number to its decimal string, as \<^verbatim>\<open>"/" + record.Id\<close> needs it. All
  digits are printed; JavaScript does so for integers below \<open>10\<^sup>2\<^sup>1\<close> and prints
  larger ones with an exponent. The record ids of the gateway are strings.
\<close>

function nat_to_string :: "nat \<Rightarrow> string" where
  "nat_to_string n =
     (if n < 10 then [char_of (48 + n)]
      else nat_to_string (n div 10) @ [char_of (48 + n mod 10)])"
  by pat_completeness auto
termination
  by (relation "measure id") auto

fun js_to_string :: "jsval \<Rightarrow> string" where
  "js_to_string JUndefined = ''undefined''"
| "js_to_string JNull = ''null''"
| "js_to_string (JBool b) = (if b then ''true'' else ''false'')"
| "js_to_string (JNum n) =
     (if n < 0 then ''-'' @ nat_to_string (nat (- n)) else nat_to_string (nat n))"
| "js_to_string (JStr s) = s"

text \<open>
  Conversion to a number; \<open>None\<close> is \<^verbatim>\<open>NaN\<close>. Of the string literals only the empty
  (or blank) string and the signed decimal integers denote a number of this
  development; every other string converts to \<^verbatim>\<open>NaN\<close> here, also the hexadecimal,
  fractional and exponent literals and \<^verbatim>\<open>Infinity\<close>, which JavaScript reads as
  numbers. The conversion of a string other than the empty one is reached only when a
  column mixes numbers with non-empty strings.
\<close>

definition is_digit :: "char \<Rightarrow> bool" where
  "is_digit c = (48 \<le> (of_char c :: nat) \<and> (of_char c :: nat) \<le> 57)"

definition digits_value :: "string \<Rightarrow> nat" where
  "digits_value s = foldl (\<lambda>a c. 10 * a + (of_char c - 48)) 0 s"

definition string_to_number :: "string \<Rightarrow> int option" where
  "string_to_number s =
     (case trim s of
        [] \<Rightarrow> Some 0
      | c # r \<Rightarrow>
          if c = CHR ''-'' \<and> r \<noteq> [] \<and> list_all is_digit r then Some (- int (digits_value r))
          else if c = CHR ''+'' \<and> r \<noteq> [] \<and> list_all is_digit r then Some (int (digits_value r))
          else if list_all is_digit (c # r) then Some (int (digits_value (c # r)))
          else None)"

fun to_number :: "jsval \<Rightarrow> int option" where
  "to_number JUndefined = None"
| "to_number JNull = Some 0"
| "to_number (JBool b) = Some (if b then 1 else 0)"
| "to_number (JNum n) = Some n"
| "to_number (JStr s) = string_to_number s"

text \<open>
  The relational operators: two strings are compared by code units, any other pair is
  compared as numbers, and a comparison with \<^verbatim>\<open>NaN\<close> is false.
\<close>

fun js_lt :: "jsval \<Rightarrow> jsval \<Rightarrow> bool" where
  "js_lt (JStr s) (JStr t) = (s < t)"
| "js_lt a b =
     (case to_number a of None \<Rightarrow> False
      | Some x \<Rightarrow> (case to_number b of None \<Rightarrow> False | Some y \<Rightarrow> x < y))"

definition js_gt :: "jsval \<Rightarrow> jsval \<Rightarrow> bool" where
  "js_gt a b = js_lt b a"

text \<open>
  \<^verbatim>\<open>_addRecordUrls\<close>: every record is copied and given the property
  \<^verbatim>\<open>recordUrl: "/" + record.Id\<close>.
\<close>

definition addRecordUrls :: "row list \<Rightarrow> row list" where
  "addRecordUrls records =
     map (\<lambda>record.
            AList.update ''recordUrl'' (JStr (''/'' @ js_to_string (get_field record ''Id'')))
              record)
         records"

section \<open>The sort adapter\<close>

text \<open>
  The comparator that \<^verbatim>\<open>_sortData\<close> hands to \<^verbatim>\<open>Array.prototype.sort\<close>. It returns a
  number, or throws: when \<^verbatim>\<open>valueA\<close> is a string and \<^verbatim>\<open>valueB\<close> is a truthy value
  that is no string, \<^verbatim>\<open>(valueB || "").toLowerCase\<close> is not a function.
\<close>

definition sortData_compare :: "string \<Rightarrow> string \<Rightarrow> row \<Rightarrow> row \<Rightarrow> js_error + int" where
  "sortData_compare fieldName sortDirection a b =
     (let isReverse = (if sortDirection = ''desc'' then - 1 else 1);
          valueA = js_or (get_field a fieldName) (JStr '''');
          valueB = js_or (get_field b fieldName) (JStr '''')
      in case valueA of
           JStr sa \<Rightarrow>
             (case js_or valueB (JStr '''') of
                JStr sb \<Rightarrow>
                  (let valueA = JStr (toLowerCase sa); valueB = JStr (toLowerCase sb)
                   in if js_gt valueA valueB then Inr isReverse
                      else if js_lt valueA valueB then Inr (- isReverse)
                      else Inr 0)
              | _ \<Rightarrow> Inl TypeError)
         | _ \<Rightarrow>
             if js_gt valueA valueB then Inr isReverse
             else if js_lt valueA valueB then Inr (- isReverse)
             else Inr 0)"

text \<open>
  \<^verbatim>\<open>Array.prototype.sort\<close> is stable, calls the comparator in an order the engine
  chooses, and stops at the first call that throws. Here it is an insertion sort, built
  from the end of the array, that calls the comparator with the later element first and
  the earlier element second. For a comparator that never throws and orders the rows by
  a key, every stable sort gives the same list, so that the result is the engine's. For
  a comparator that may throw, only arrays of two rows are compared as V8 compares them
  (one call, later row first); on longer arrays an engine makes other calls, and may
  throw where this sort returns a list or return a list where this sort throws.
\<close>

fun sort_insert :: "('a \<Rightarrow> 'a \<Rightarrow> js_error + int) \<Rightarrow> 'a \<Rightarrow> 'a list \<Rightarrow> js_error + 'a list" where
  "sort_insert cmp x [] = Inr [x]"
| "sort_insert cmp x (y # ys) =
     (case cmp y x of
        Inl e \<Rightarrow> Inl e
      | Inr c \<Rightarrow>
          if c < 0 then
            (case sort_insert cmp x ys of Inl e \<Rightarrow> Inl e | Inr zs \<Rightarrow> Inr (y # zs))
          else Inr (x # y # ys))"

fun array_sort :: "('a \<Rightarrow> 'a \<Rightarrow> js_error + int) \<Rightarrow> 'a list \<Rightarrow> js_error + 'a list" where
  "array_sort cmp [] = Inr []"
| "array_sort cmp (x # xs) =
     (case array_sort cmp xs of Inl e \<Rightarrow> Inl e | Inr ys \<Rightarrow> sort_insert cmp x ys)"

definition sortData :: "row list \<Rightarrow> string \<Rightarrow> string \<Rightarrow> js_error + row list" where
  "sortData data fieldName sortDirection =
     array_sort (sortData_compare fieldName sortDirection) data"

text \<open>
  The value under which the comparator orders a row: the cell, with a falsy cell replaced
  by the empty string and a string put in lower case. A column is a text column when
  every cell is falsy or a string, and a number column when every cell is a number other
  than zero.
\<close>

definition sort_value :: "string \<Rightarrow> row \<Rightarrow> jsval" where
  "sort_value fieldName r =
     (case js_or (get_field r fieldName) (JStr '''') of
        JStr s \<Rightarrow> JStr (toLowerCase s)
      | v \<Rightarrow> v)"

definition text_column :: "string \<Rightarrow> row list \<Rightarrow> bool" where
  "text_column fieldName rows =
     list_all (\<lambda>r. case js_or (get_field r fieldName) (JStr '''') of
                      JStr s \<Rightarrow> True | _ \<Rightarrow> False) rows"

definition number_column :: "string \<Rightarrow> row list \<Rightarrow> bool" where
  "number_column fieldName rows =
     list_all (\<lambda>r. case js_or (get_field r fieldName) (JStr '''') of
                      JNum n \<Rightarrow> True | _ \<Rightarrow> False) rows"

definition text_key :: "string \<Rightarrow> row \<Rightarrow> string" where
  "text_key fieldName r =
     (case js_or (get_field r fieldName) (JStr '''') of JStr s \<Rightarrow> toLowerCase s | _ \<Rightarrow> [])"

definition number_key :: "string \<Rightarrow> row \<Rightarrow> int" where
  "number_key fieldName r =
     (case js_or (get_field r fieldName) (JStr '''') of JNum n \<Rightarrow> n | _ \<Rightarrow> 0)"

text \<open>A comparator that orders by a key, upwards or downwards, and lists so ordered.\<close>

definition key_cmp :: "bool \<Rightarrow> ('a \<Rightarrow> 'k::linorder) \<Rightarrow> 'a \<Rightarrow> 'a \<Rightarrow> js_error + int" where
  "key_cmp up k x y =
     Inr (if k y < k x then (if up then 1 else - 1)
          else if k x < k y then (if up then - 1 else 1) else 0)"

definition ordered :: "bool \<Rightarrow> ('a \<Rightarrow> 'k::linorder) \<Rightarrow> 'a list \<Rightarrow> bool" where
  "ordered up k xs = (if up then sorted (map k xs) else sorted (rev (map k xs)))"

section \<open>The component\<close>

text \<open>
  The fields of the class \<^verbatim>\<open>AccountRelatedRecords\<close>, without the leading underscore of
  the private ones. The record id of the account, the column definitions and the account
  record of the wire adapter take no part in the coordination of the two collections and
  are left out. A debounce timer that is armed holds the value its callback captured.
\<close>

record component =
  paginatedContacts :: "row list"
  paginatedOpportunities :: "row list"
  searchContacts :: "row list"
  searchOpportunities :: "row list"
  totalContactCount :: int
  totalOpportunityCount :: int
  contactOffset :: nat
  opportunityOffset :: nat
  enableContactInfiniteLoading :: bool
  enableOpportunityInfiniteLoading :: bool
  contactDraftValues :: "row list"
  opportunityDraftValues :: "row list"
  isLoading :: bool
  contactError :: "js_error option"
  opportunityError :: "js_error option"
  isSaving :: bool
  contactSearchTerm :: string
  opportunitySearchTerm :: string
  isContactSearching :: bool
  isOpportunitySearching :: bool
  contactDebounceTimer :: "string option"
  opportunityDebounceTimer :: "string option"
  activeTab :: string
  contactSortBy :: "string option"
  contactSortDirection :: "string option"
  opportunitySortBy :: "string option"
  opportunitySortDirection :: "string option"
  contactsLoading :: bool
  opportunitiesLoading :: bool

definition PAGE_SIZE :: nat where
  "PAGE_SIZE = 50"

definition initial_component :: component where
  "initial_component =
     \<lparr> paginatedContacts = [], paginatedOpportunities = [],
       searchContacts = [], searchOpportunities = [],
       totalContactCount = 0, totalOpportunityCount = 0,
       contactOffset = 0, opportunityOffset = 0,
       enableContactInfiniteLoading = True, enableOpportunityInfiniteLoading = True,
       contactDraftValues = [], opportunityDraftValues = [],
       isLoading = True, contactError = None, opportunityError = None, isSaving = False,
       contactSearchTerm = '''', opportunitySearchTerm = '''',
       isContactSearching = False, isOpportunitySearching = False,
       contactDebounceTimer = None, opportunityDebounceTimer = None,
       activeTab = ''contacts'',
       contactSortBy = None, contactSortDirection = None,
       opportunitySortBy = None, opportunitySortDirection = None,
       contactsLoading = False, opportunitiesLoading = False \<rparr>"

text \<open>
  What a handler does to the world outside the component: the calls to the Apex gateway
  and to the Lightning Data Service, the toasts, the console, the loading flag of the
  datatable that sent the event, navigation, and an exception that leaves the handler.
\<close>

datatype effect =
    Apex_getRelatedContacts nat nat
  | Apex_getRelatedOpportunities nat nat
  | Apex_getContactCount
  | Apex_getOpportunityCount
  | Apex_searchContacts string
  | Apex_searchOpportunities string
  | Lds_updateRecord row
  | Lds_deleteRecord jsval
  | Lds_notifyRecordUpdateAvailable "jsval list"
  | ShowToast string string
  | ConsoleError string
  | DatatableIsLoading bool
  | Navigate jsval
  | Uncaught js_error

type_synonym outcome = "component \<times> effect list"

definition and_then :: "outcome \<Rightarrow> (component \<Rightarrow> outcome) \<Rightarrow> outcome" where
  "and_then r f = (case r of (s, es) \<Rightarrow> (case f s of (s', es') \<Rightarrow> (s', es @ es')))"

subsection \<open>Promises\<close>

text \<open>
  A settled promise is \<open>Inr\<close> of its value or \<open>Inl\<close> of its reason. \<^verbatim>\<open>Promise.all\<close>
  fulfils with all the values, or rejects with the reason of the promise that rejected
  first; \<open>settle\<close> lists the positions of the promises in the order in which they settled.
\<close>

definition reason :: "js_error + 'a \<Rightarrow> js_error option" where
  "reason p = (case p of Inl e \<Rightarrow> Some e | Inr v \<Rightarrow> None)"

definition rejection_reasons :: "nat list \<Rightarrow> js_error option list \<Rightarrow> js_error list" where
  "rejection_reasons settle reasons =
     List.map_filter (\<lambda>i. if i < length reasons then reasons ! i else None)
       (settle @ [0..<length reasons])"

definition promise_all2 ::
  "nat list \<Rightarrow> js_error + 'a \<Rightarrow> js_error + 'b \<Rightarrow> js_error + ('a \<times> 'b)" where
  "promise_all2 settle a b =
     (case (a, b) of
        (Inr x, Inr y) \<Rightarrow> Inr (x, y)
      | _ \<Rightarrow> Inl (hd (rejection_reasons settle [reason a, reason b])))"

definition promise_all4 ::
  "nat list \<Rightarrow> js_error + 'a \<Rightarrow> js_error + 'b \<Rightarrow> js_error + 'c \<Rightarrow> js_error + 'd
     \<Rightarrow> js_error + ('a \<times> 'b \<times> 'c \<times> 'd)" where
  "promise_all4 settle a b c d =
     (case (a, b, c, d) of
        (Inr w, Inr x, Inr y, Inr z) \<Rightarrow> Inr (w, x, y, z)
      | _ \<Rightarrow> Inl (hd (rejection_reasons settle [reason a, reason b, reason c, reason d])))"

definition promise_all :: "nat list \<Rightarrow> (js_error + 'a) list \<Rightarrow> js_error + 'a list" where
  "promise_all settle ps =
     (if list_all (\<lambda>p. reason p = None) ps then Inr (map projr ps)
      else Inl (hd (rejection_reasons settle (map reason ps))))"

subsection \<open>Initial load\<close>

text \<open>
  An \<^verbatim>\<open>async\<close> method runs up to its first \<^verbatim>\<open>await\<close>, and resumes when the awaited
  promise settles; other events of the component may come in between. Each method is
  therefore one function per stretch: the stretch that starts the method, and one for
  every promise it awaits, which takes the way the promise settled.
\<close>

definition loadInitialData_begin :: "component \<Rightarrow> outcome" where
  "loadInitialData_begin s =
     (s\<lparr>isLoading := True\<rparr>,
      [Apex_getRelatedContacts PAGE_SIZE 0, Apex_getRelatedOpportunities PAGE_SIZE 0,
       Apex_getContactCount, Apex_getOpportunityCount])"

definition loadInitialData_end ::
  "component \<Rightarrow> js_error + (row list \<times> row list \<times> int \<times> int) \<Rightarrow> outcome" where
  "loadInitialData_end s settled =
     (case settled of
        Inr (contactsResult, opportunitiesResult, contactCount, oppCount) \<Rightarrow>
          (s\<lparr>paginatedContacts := addRecordUrls contactsResult,
             paginatedOpportunities := addRecordUrls opportunitiesResult,
             totalContactCount := contactCount,
             totalOpportunityCount := oppCount,
             contactOffset := length contactsResult,
             opportunityOffset := length opportunitiesResult,
             enableContactInfiniteLoading := (length contactsResult \<ge> PAGE_SIZE),
             enableOpportunityInfiniteLoading := (length opportunitiesResult \<ge> PAGE_SIZE),
             contactError := None,
             opportunityError := None,
             isLoading := False\<rparr>, [])
      | Inl error \<Rightarrow>
          (s\<lparr>contactError := Some error, opportunityError := Some error,
             isLoading := False\<rparr>, []))"

definition connectedCallback :: "component \<Rightarrow> outcome" where
  "connectedCallback s = loadInitialData_begin s"

definition disconnectedCallback :: "component \<Rightarrow> outcome" where
  "disconnectedCallback s =
     (s\<lparr>contactDebounceTimer := None, opportunityDebounceTimer := None\<rparr>, [])"

subsection \<open>The active view\<close>

definition isContactSearchActive :: "component \<Rightarrow> bool" where
  "isContactSearchActive s =
     (contactSearchTerm s \<noteq> [] \<and> length (trim (contactSearchTerm s)) > 0)"

definition isOpportunitySearchActive :: "component \<Rightarrow> bool" where
  "isOpportunitySearchActive s =
     (opportunitySearchTerm s \<noteq> [] \<and> length (trim (opportunitySearchTerm s)) > 0)"

definition displayedContacts :: "component \<Rightarrow> row list" where
  "displayedContacts s =
     (if isContactSearchActive s then searchContacts s else paginatedContacts s)"

definition displayedOpportunities :: "component \<Rightarrow> row list" where
  "displayedOpportunities s =
     (if isOpportunitySearchActive s then searchOpportunities s else paginatedOpportunities s)"


definition opportunityInfiniteLoadingEnabled :: "component \<Rightarrow> bool" where
  "opportunityInfiniteLoadingEnabled s =
     (if isOpportunitySearchActive s then False else enableOpportunityInfiniteLoading s)"

subsection \<open>Server-side search\<close>

definition handleContactSearch :: "component \<Rightarrow> string \<Rightarrow> outcome" where
  "handleContactSearch s v =
     (let s1 = s\<lparr>contactSearchTerm := v, contactDebounceTimer := None\<rparr>
      in if v = [] \<or> trim v = [] then
           (s1\<lparr>searchContacts := [], isContactSearching := False\<rparr>, [])
         else (s1\<lparr>contactDebounceTimer := Some v\<rparr>, []))"

definition handleOpportunitySearch :: "component \<Rightarrow> string \<Rightarrow> outcome" where
  "handleOpportunitySearch s v =
     (let s1 = s\<lparr>opportunitySearchTerm := v, opportunityDebounceTimer := None\<rparr>
      in if v = [] \<or> trim v = [] then
           (s1\<lparr>searchOpportunities := [], isOpportunitySearching := False\<rparr>, [])
         else (s1\<lparr>opportunityDebounceTimer := Some v\<rparr>, []))"

definition executeContactSearch_begin :: "component \<Rightarrow> string \<Rightarrow> outcome" where
  "executeContactSearch_begin s term =
     (s\<lparr>isContactSearching := True\<rparr>, [Apex_searchContacts term])"

definition executeContactSearch_end ::
  "component \<Rightarrow> string \<Rightarrow> js_error + row list \<Rightarrow> outcome" where
  "executeContactSearch_end s term settled =
     (case settled of
        Inr result \<Rightarrow>
          ((if trim (contactSearchTerm s) = term
            then s\<lparr>searchContacts := addRecordUrls result\<rparr> else s)
             \<lparr>isContactSearching := False\<rparr>, [])
      | Inl error \<Rightarrow>
          (s\<lparr>searchContacts := [], isContactSearching := False\<rparr>,
           [ConsoleError ''Error searching contacts:'']))"

definition executeOpportunitySearch_begin :: "component \<Rightarrow> string \<Rightarrow> outcome" where
  "executeOpportunitySearch_begin s term =
     (s\<lparr>isOpportunitySearching := True\<rparr>, [Apex_searchOpportunities term])"

definition executeOpportunitySearch_end ::
  "component \<Rightarrow> string \<Rightarrow> js_error + row list \<Rightarrow> outcome" where
  "executeOpportunitySearch_end s term settled =
     (case settled of
        Inr result \<Rightarrow>
          ((if trim (opportunitySearchTerm s) = term
            then s\<lparr>searchOpportunities := addRecordUrls result\<rparr> else s)
             \<lparr>isOpportunitySearching := False\<rparr>, [])
      | Inl error \<Rightarrow>
          (s\<lparr>searchOpportunities := [], isOpportunitySearching := False\<rparr>,
           [ConsoleError ''Error searching opportunities:'']))"

text \<open>The callback of an armed debounce timer, run when the 300 ms have passed.\<close>

definition contactDebounceTimer_fired :: "component \<Rightarrow> outcome" where
  "contactDebounceTimer_fired s =
     (case contactDebounceTimer s of
        None \<Rightarrow> (s, [])
      | Some v \<Rightarrow> executeContactSearch_begin (s\<lparr>contactDebounceTimer := None\<rparr>) (trim v))"

definition opportunityDebounceTimer_fired :: "component \<Rightarrow> outcome" where
  "opportunityDebounceTimer_fired s =
     (case opportunityDebounceTimer s of
        None \<Rightarrow> (s, [])
      | Some v \<Rightarrow>
          executeOpportunitySearch_begin (s\<lparr>opportunityDebounceTimer := None\<rparr>) (trim v))"

subsection \<open>Infinite loading\<close>

definition handleContactLoadMore_begin :: "component \<Rightarrow> outcome" where
  "handleContactLoadMore_begin s =
     (if isContactSearchActive s \<or> contactsLoading s then (s, [])
      else (s\<lparr>contactsLoading := True\<rparr>,
            [DatatableIsLoading True, Apex_getRelatedContacts PAGE_SIZE (contactOffset s)]))"

definition handleContactLoadMore_end :: "component \<Rightarrow> js_error + row list \<Rightarrow> outcome" where
  "handleContactLoadMore_end s settled =
     (case settled of
        Inr result \<Rightarrow>
          (let newRecords = addRecordUrls result;
               s1 = s\<lparr>paginatedContacts := paginatedContacts s @ newRecords,
                      contactOffset := contactOffset s + length result\<rparr>;
               s2 = (if length result < PAGE_SIZE
                     then s1\<lparr>enableContactInfiniteLoading := False\<rparr> else s1)
           in (s2\<lparr>contactsLoading := False\<rparr>, [DatatableIsLoading False]))
      | Inl error \<Rightarrow>
          (s\<lparr>enableContactInfiniteLoading := False, contactsLoading := False\<rparr>,
           [ConsoleError ''Error loading more contacts:'', DatatableIsLoading False]))"

definition handleOpportunityLoadMore_begin :: "component \<Rightarrow> outcome" where
  "handleOpportunityLoadMore_begin s =
     (if isOpportunitySearchActive s \<or> opportunitiesLoading s then (s, [])
      else (s\<lparr>opportunitiesLoading := True\<rparr>,
            [DatatableIsLoading True,
             Apex_getRelatedOpportunities PAGE_SIZE (opportunityOffset s)]))"

definition handleOpportunityLoadMore_end ::
  "component \<Rightarrow> js_error + row list \<Rightarrow> outcome" where
  "handleOpportunityLoadMore_end s settled =
     (case settled of
        Inr result \<Rightarrow>
          (let newRecords = addRecordUrls result;
               s1 = s\<lparr>paginatedOpportunities := paginatedOpportunities s @ newRecords,
                      opportunityOffset := opportunityOffset s + length result\<rparr>;
               s2 = (if length result < PAGE_SIZE
                     then s1\<lparr>enableOpportunityInfiniteLoading := False\<rparr> else s1)
           in (s2\<lparr>opportunitiesLoading := False\<rparr>, [DatatableIsLoading False]))
      | Inl error \<Rightarrow>
          (s\<lparr>enableOpportunityInfiniteLoading := False, opportunitiesLoading := False\<rparr>,
           [ConsoleError ''Error loading more opportunities:'', DatatableIsLoading False]))"

subsection \<open>Reload, delete and save\<close>

text \<open>
  \<^verbatim>\<open>_reloadData\<close> fetches again as many rows as the offset counts, from position 0,
  together with the exact count. It catches nothing: a rejection goes to the method that
  awaits it.
\<close>

definition reloadData_begin :: "component \<Rightarrow> string \<Rightarrow> outcome" where
  "reloadData_begin s objectType =
     (if objectType = ''contact'' then
        (s, [Apex_getRelatedContacts (contactOffset s) 0, Apex_getContactCount])
      else
        (s, [Apex_getRelatedOpportunities (opportunityOffset s) 0, Apex_getOpportunityCount]))"

definition reloadData_end ::
  "component \<Rightarrow> string \<Rightarrow> nat \<Rightarrow> js_error + (row list \<times> int) \<Rightarrow> js_error + component" where
  "reloadData_end s objectType currentCount settled =
     (case settled of
        Inl error \<Rightarrow> Inl error
      | Inr (result, totalCount) \<Rightarrow>
          if objectType = ''contact'' then
            Inr (s\<lparr>paginatedContacts := addRecordUrls result,
                   totalContactCount := totalCount,
                   contactOffset := length result,
                   enableContactInfiniteLoading := (length result \<ge> currentCount)\<rparr>)
          else
            Inr (s\<lparr>paginatedOpportunities := addRecordUrls result,
                   totalOpportunityCount := totalCount,
                   opportunityOffset := length result,
                   enableOpportunityInfiniteLoading := (length result \<ge> currentCount)\<rparr>))"

text \<open>
  \<^verbatim>\<open>_deleteRow\<close>: the stretch up to \<^verbatim>\<open>deleteRecord\<close>, the stretch after it, which
  starts the search again when one is active and otherwise the reload, and the end of
  the method once the reload has settled.
\<close>

definition deleteRow_begin :: "component \<Rightarrow> row \<Rightarrow> string \<Rightarrow> outcome" where
  "deleteRow_begin s r objectType =
     (s\<lparr>isSaving := True\<rparr>, [Lds_deleteRecord (get_field r ''Id'')])"

definition deleteRow_deleted ::
  "component \<Rightarrow> row \<Rightarrow> string \<Rightarrow> js_error + unit \<Rightarrow> outcome" where
  "deleteRow_deleted s r objectType settled =
     (case settled of
        Inl error \<Rightarrow>
          (s\<lparr>isSaving := False\<rparr>, [ShowToast ''Error Deleting Record'' ''error''])
      | Inr u \<Rightarrow>
          and_then (s, [ShowToast ''Deleted'' ''success''])
            (\<lambda>s. if objectType = ''contact'' then
                    (if isContactSearchActive s
                     then executeContactSearch_begin s (trim (contactSearchTerm s))
                     else reloadData_begin s ''contact'')
                  else
                    (if isOpportunitySearchActive s
                     then executeOpportunitySearch_begin s (trim (opportunitySearchTerm s))
                     else reloadData_begin s ''opportunity'')))"

definition deleteRow_end :: "component \<Rightarrow> js_error + component \<Rightarrow> outcome" where
  "deleteRow_end s reloaded =
     (case reloaded of
        Inr s' \<Rightarrow> (s'\<lparr>isSaving := False\<rparr>, [])
      | Inl error \<Rightarrow>
          (s\<lparr>isSaving := False\<rparr>, [ShowToast ''Error Deleting Record'' ''error'']))"

definition handleRowAction :: "component \<Rightarrow> string \<Rightarrow> row \<Rightarrow> string \<Rightarrow> outcome" where
  "handleRowAction s actionName r objectType =
     (if actionName = ''view'' then (s, [Navigate (get_field r ''Id'')])
      else if actionName = ''delete'' then deleteRow_begin s r objectType
      else (s, []))"

text \<open>
  \<^verbatim>\<open>handleContactSave\<close>: one \<^verbatim>\<open>updateRecord\<close> per draft, awaited together; then
  \<^verbatim>\<open>notifyRecordUpdateAvailable\<close>; then the drafts are cleared and the view is
  synchronised again.
\<close>

definition handleContactSave_begin :: "component \<Rightarrow> row list \<Rightarrow> outcome" where
  "handleContactSave_begin s draftValues =
     (s\<lparr>isSaving := True\<rparr>, map Lds_updateRecord draftValues)"

definition handleContactSave_updated ::
  "component \<Rightarrow> row list \<Rightarrow> js_error + unit list \<Rightarrow> outcome" where
  "handleContactSave_updated s draftValues settled =
     (case settled of
        Inl error \<Rightarrow>
          (s\<lparr>isSaving := False\<rparr>, [ShowToast ''Error Updating Contacts'' ''error''])
      | Inr u \<Rightarrow>
          (s, [Lds_notifyRecordUpdateAvailable (map (\<lambda>d. get_field d ''Id'') draftValues)]))"

definition handleContactSave_notified ::
  "component \<Rightarrow> row list \<Rightarrow> js_error + unit \<Rightarrow> outcome" where
  "handleContactSave_notified s draftValues settled =
     (case settled of
        Inl error \<Rightarrow>
          (s\<lparr>isSaving := False\<rparr>, [ShowToast ''Error Updating Contacts'' ''error''])
      | Inr u \<Rightarrow>
          and_then (s\<lparr>contactDraftValues := []\<rparr>, [ShowToast ''Success'' ''success''])
            (\<lambda>s. if isContactSearchActive s
                  then executeContactSearch_begin s (trim (contactSearchTerm s))
                  else reloadData_begin s ''contact''))"

definition handleContactSave_end :: "component \<Rightarrow> js_error + component \<Rightarrow> outcome" where
  "handleContactSave_end s reloaded =
     (case reloaded of
        Inr s' \<Rightarrow> (s'\<lparr>isSaving := False\<rparr>, [])
      | Inl error \<Rightarrow>
          (s\<lparr>isSaving := False\<rparr>, [ShowToast ''Error Updating Contacts'' ''error'']))"

definition handleOpportunitySave_begin :: "component \<Rightarrow> row list \<Rightarrow> outcome" where
  "handleOpportunitySave_begin s draftValues =
     (s\<lparr>isSaving := True\<rparr>, map Lds_updateRecord draftValues)"

definition handleOpportunitySave_updated ::
  "component \<Rightarrow> row list \<Rightarrow> js_error + unit list \<Rightarrow> outcome" where
  "handleOpportunitySave_updated s draftValues settled =
     (case settled of
        Inl error \<Rightarrow>
          (s\<lparr>isSaving := False\<rparr>, [ShowToast ''Error Updating Opportunities'' ''error''])
      | Inr u \<Rightarrow>
          (s, [Lds_notifyRecordUpdateAvailable (map (\<lambda>d. get_field d ''Id'') draftValues)]))"

definition handleOpportunitySave_notified ::
  "component \<Rightarrow> row list \<Rightarrow> js_error + unit \<Rightarrow> outcome" where
  "handleOpportunitySave_notified s draftValues settled =
     (case settled of
        Inl error \<Rightarrow>
          (s\<lparr>isSaving := False\<rparr>, [ShowToast ''Error Updating Opportunities'' ''error''])
      | Inr u \<Rightarrow>
          and_then (s\<lparr>opportunityDraftValues := []\<rparr>, [ShowToast ''Success'' ''success''])
            (\<lambda>s. if isOpportunitySearchActive s
                  then executeOpportunitySearch_begin s (trim (opportunitySearchTerm s))
                  else reloadData_begin s ''opportunity''))"

definition handleOpportunitySave_end :: "component \<Rightarrow> js_error + component \<Rightarrow> outcome" where
  "handleOpportunitySave_end s reloaded =
     (case reloaded of
        Inr s' \<Rightarrow> (s'\<lparr>isSaving := False\<rparr>, [])
      | Inl error \<Rightarrow>
          (s\<lparr>isSaving := False\<rparr>, [ShowToast ''Error Updating Opportunities'' ''error'']))"

definition handleContactCancel :: "component \<Rightarrow> outcome" where
  "handleContactCancel s = (s\<lparr>contactDraftValues := []\<rparr>, [])"

definition handleOpportunityCancel :: "component \<Rightarrow> outcome" where
  "handleOpportunityCancel s = (s\<lparr>opportunityDraftValues := []\<rparr>, [])"

subsection \<open>Sorting, refresh and tabs\<close>

definition handleContactSort :: "component \<Rightarrow> string \<Rightarrow> string \<Rightarrow> outcome" where
  "handleContactSort s fieldName sortDirection =
     (let s1 = s\<lparr>contactSortBy := Some fieldName, contactSortDirection := Some sortDirection\<rparr>;
          sortField = (if fieldName = ''recordUrl'' then ''Name'' else fieldName)
      in if isContactSearchActive s1 then
           (case sortData (searchContacts s1) sortField sortDirection of
              Inr sorted_rows \<Rightarrow> (s1\<lparr>searchContacts := sorted_rows\<rparr>, [])
            | Inl error \<Rightarrow> (s1, [Uncaught error]))
         else
           (case sortData (paginatedContacts s1) sortField sortDirection of
              Inr sorted_rows \<Rightarrow> (s1\<lparr>paginatedContacts := sorted_rows\<rparr>, [])
            | Inl error \<Rightarrow> (s1, [Uncaught error])))"

definition handleOpportunitySort :: "component \<Rightarrow> string \<Rightarrow> string \<Rightarrow> outcome" where
  "handleOpportunitySort s fieldName sortDirection =
     (let s1 = s\<lparr>opportunitySortBy := Some fieldName,
                 opportunitySortDirection := Some sortDirection\<rparr>;
          sortField = (if fieldName = ''recordUrl'' then ''Name'' else fieldName)
      in if isOpportunitySearchActive s1 then
           (case sortData (searchOpportunities s1) sortField sortDirection of
              Inr sorted_rows \<Rightarrow> (s1\<lparr>searchOpportunities := sorted_rows\<rparr>, [])
            | Inl error \<Rightarrow> (s1, [Uncaught error]))
         else
           (case sortData (paginatedOpportunities s1) sortField sortDirection of
              Inr sorted_rows \<Rightarrow> (s1\<lparr>paginatedOpportunities := sorted_rows\<rparr>, [])
            | Inl error \<Rightarrow> (s1, [Uncaught error])))"

text \<open>
  \<^verbatim>\<open>handleRefresh\<close> resets both collections and awaits \<^verbatim>\<open>_loadInitialData\<close>, which
  catches its own failures, so that the refresh always ends with its success toast.
\<close>

definition handleRefresh_begin :: "component \<Rightarrow> outcome" where
  "handleRefresh_begin s =
     loadInitialData_begin
       (s\<lparr>isLoading := True,
          paginatedContacts := [], paginatedOpportunities := [],
          searchContacts := [], searchOpportunities := [],
          contactOffset := 0, opportunityOffset := 0,
          enableContactInfiniteLoading := True, enableOpportunityInfiniteLoading := True,
          contactSearchTerm := '''', opportunitySearchTerm := ''''\<rparr>)"

definition handleRefresh_end ::
  "component \<Rightarrow> js_error + (row list \<times> row list \<times> int \<times> int) \<Rightarrow> outcome" where
  "handleRefresh_end s settled =
     and_then (loadInitialData_end s settled)
       (\<lambda>s. (s\<lparr>isLoading := False\<rparr>, [ShowToast ''Refreshed'' ''success'']))"

definition handleTabClick :: "component \<Rightarrow> string \<Rightarrow> outcome" where
  "handleTabClick s tab = (s\<lparr>activeTab := tab\<rparr>, [])"

section \<open>Events\<close>

text \<open>
  Everything that makes the component run a stretch of code: the lifecycle hooks, the
  events of the user interface, a debounce timer that fires, and a promise that settles.
  A settling promise names the method that awaits it and carries what that method
  captured when it made the call. The method that awaits a search or a reload on behalf
  of a mutation goes on in the same turn, so its next stretch belongs to the same event.
\<close>

datatype mutation = DeleteRow | ContactSave | OpportunitySave

datatype event =
    ConnectedCallback
  | DisconnectedCallback
  | InitialDataSettled bool "nat list"
      "js_error + row list" "js_error + row list" "js_error + int" "js_error + int"
  | ContactSearchInput string
  | OpportunitySearchInput string
  | ContactTimerFired
  | OpportunityTimerFired
  | ContactSearchSettled "mutation option" string "js_error + row list"
  | OpportunitySearchSettled "mutation option" string "js_error + row list"
  | ContactLoadMore
  | OpportunityLoadMore
  | ContactLoadMoreSettled "js_error + row list"
  | OpportunityLoadMoreSettled "js_error + row list"
  | RowAction string row string
  | DeleteSettled row string "js_error + unit"
  | ContactSaveEvent "row list"
  | ContactUpdatesSettled "row list" "nat list" "(js_error + unit) list"
  | ContactNotifySettled "row list" "js_error + unit"
  | OpportunitySaveEvent "row list"
  | OpportunityUpdatesSettled "row list" "nat list" "(js_error + unit) list"
  | OpportunityNotifySettled "row list" "js_error + unit"
  | ReloadSettled mutation string nat "nat list" "js_error + row list" "js_error + int"
  | ContactSort string string
  | OpportunitySort string string
  | Refresh
  | ContactCancel
  | OpportunityCancel
  | TabClick string

definition mutation_end :: "mutation \<Rightarrow> component \<Rightarrow> js_error + component \<Rightarrow> outcome" where
  "mutation_end m s reloaded =
     (case m of
        DeleteRow \<Rightarrow> deleteRow_end s reloaded
      | ContactSave \<Rightarrow> handleContactSave_end s reloaded
      | OpportunitySave \<Rightarrow> handleOpportunitySave_end s reloaded)"

fun step :: "component \<Rightarrow> event \<Rightarrow> outcome" where
  "step s ConnectedCallback = connectedCallback s"
| "step s DisconnectedCallback = disconnectedCallback s"
| "step s (InitialDataSettled refreshing settle cs os cc oc) =
     (if refreshing then handleRefresh_end s (promise_all4 settle cs os cc oc)
      else loadInitialData_end s (promise_all4 settle cs os cc oc))"
| "step s (ContactSearchInput v) = handleContactSearch s v"
| "step s (OpportunitySearchInput v) = handleOpportunitySearch s v"
| "step s ContactTimerFired = contactDebounceTimer_fired s"
| "step s OpportunityTimerFired = opportunityDebounceTimer_fired s"
| "step s (ContactSearchSettled awaiting term settled) =
     (case awaiting of
        None \<Rightarrow> executeContactSearch_end s term settled
      | Some m \<Rightarrow>
          and_then (executeContactSearch_end s term settled)
            (\<lambda>s. reloadData_begin s ''contact''))"
| "step s (OpportunitySearchSettled awaiting term settled) =
     (case awaiting of
        None \<Rightarrow> executeOpportunitySearch_end s term settled
      | Some m \<Rightarrow>
          and_then (executeOpportunitySearch_end s term settled)
            (\<lambda>s. reloadData_begin s ''opportunity''))"
| "step s ContactLoadMore = handleContactLoadMore_begin s"
| "step s OpportunityLoadMore = handleOpportunityLoadMore_begin s"
| "step s (ContactLoadMoreSettled settled) = handleContactLoadMore_end s settled"
| "step s (OpportunityLoadMoreSettled settled) = handleOpportunityLoadMore_end s settled"
| "step s (RowAction actionName r objectType) = handleRowAction s actionName r objectType"
| "step s (DeleteSettled r objectType settled) = deleteRow_deleted s r objectType settled"
| "step s (ContactSaveEvent draftValues) = handleContactSave_begin s draftValues"
| "step s (ContactUpdatesSettled draftValues settle ps) =
     handleContactSave_updated s draftValues (promise_all settle ps)"
| "step s (ContactNotifySettled draftValues settled) =
     handleContactSave_notified s draftValues settled"
| "step s (OpportunitySaveEvent draftValues) = handleOpportunitySave_begin s draftValues"
| "step s (OpportunityUpdatesSettled draftValues settle ps) =
     handleOpportunitySave_updated s draftValues (promise_all settle ps)"
| "step s (OpportunityNotifySettled draftValues settled) =
     handleOpportunitySave_notified s draftValues settled"
| "step s (ReloadSettled m objectType currentCount settle rs n) =
     mutation_end m s (reloadData_end s objectType currentCount (promise_all2 settle rs n))"
| "step s (ContactSort fieldName sortDirection) = handleContactSort s fieldName sortDirection"
| "step s (OpportunitySort fieldName sortDirection) =
     handleOpportunitySort s fieldName sortDirection"
| "step s Refresh = handleRefresh_begin s"
| "step s ContactCancel = handleContactCancel s"
| "step s OpportunityCancel = handleOpportunityCancel s"
| "step s (TabClick tab) = handleTabClick s tab"

fun run :: "component \<Rightarrow> event list \<Rightarrow> outcome" where
  "run s [] = (s, [])"
| "run s (e # es) = and_then (step s e) (\<lambda>s'. run s' es)"

section \<open>The gateway\<close>

text \<open>
  Modelled from the spec: the Apex controller \<^verbatim>\<open>AccountRelatedRecordsController\<close> is not
  among the sources. By the specification, the paged fetch returns the rows of the
  collection in the server's order, at most \<open>pageSize\<close> of them from position \<open>offset\<close> on
  (fewer than \<open>pageSize\<close> rows signal the end of the data), and the count is the exact
  number of rows.
\<close>

definition fetchPage :: "row list \<Rightarrow> nat \<Rightarrow> nat \<Rightarrow> row list" where
  "fetchPage server_rows pageSize offsetVal = take pageSize (drop offsetVal server_rows)"

definition fetchCount :: "row list \<Rightarrow> int" where
  "fetchCount server_rows = int (length server_rows)"

section \<open>Properties of the state\<close>

text \<open>
  The offset of each collection counts the rows held along its paginated cursor.
\<close>

definition pagination_inv :: "component \<Rightarrow> bool" where
  "pagination_inv s =
     (contactOffset s = length (paginatedContacts s) \<and>
      opportunityOffset s = length (paginatedOpportunities s))"



text \<open>
  The events of a search cycle of one collection: the input changes, the debounce timer
  fires, a search started by the timer settles.
\<close>

fun contact_search_event :: "event \<Rightarrow> bool" where
  "contact_search_event (ContactSearchInput v) = True"
| "contact_search_event ContactTimerFired = True"
| "contact_search_event (ContactSearchSettled None term settled) = True"
| "contact_search_event e = False"

fun opportunity_search_event :: "event \<Rightarrow> bool" where
  "opportunity_search_event (OpportunitySearchInput v) = True"
| "opportunity_search_event OpportunityTimerFired = True"
| "opportunity_search_event (OpportunitySearchSettled None term settled) = True"
| "opportunity_search_event e = False"

section \<open>The sort adapter orders by lower-cased value, stably\<close>

lemma sort_insert_key:
  assumes "\<forall>y\<in>set ys. cmp y x = key_cmp up k y x"
  shows "\<exists>zs. sort_insert cmp x ys = Inr zs \<and> mset zs = add_mset x (mset ys)
           \<and> (\<forall>c. filter (\<lambda>r. k r = c) zs = filter (\<lambda>r. k r = c) (x # ys))
           \<and> (ordered up k ys \<longrightarrow> ordered up k zs)"
  using assms
proof (induction ys)
  case Nil
  then show ?case by (simp add: ordered_def)
next
  case (Cons y ys)
  then obtain zs where zs: "sort_insert cmp x ys = Inr zs" "mset zs = add_mset x (mset ys)"
    "\<forall>c. filter (\<lambda>r. k r = c) zs = filter (\<lambda>r. k r = c) (x # ys)"
    "ordered up k ys \<longrightarrow> ordered up k zs" by auto
  have c: "cmp y x = key_cmp up k y x" using Cons.prems by simp
  have set_zs: "set zs = insert x (set ys)"
    using zs(2) by (metis set_mset_add_mset_insert set_mset_mset)
  show ?case
  proof (cases up)
    case True
    show ?thesis using zs c True set_zs
      by (auto simp: key_cmp_def ordered_def)
  next
    case False
    show ?thesis using zs c False set_zs
      by (auto simp: key_cmp_def ordered_def sorted_append)
  qed
qed

lemma array_sort_key:
  assumes "\<forall>x\<in>set xs. \<forall>y\<in>set xs. cmp x y = key_cmp up k x y"
  shows "\<exists>zs. array_sort cmp xs = Inr zs \<and> mset zs = mset xs
           \<and> (\<forall>c. filter (\<lambda>r. k r = c) zs = filter (\<lambda>r. k r = c) xs)
           \<and> ordered up k zs"
  using assms
proof (induction xs)
  case Nil
  then show ?case by (simp add: ordered_def)
next
  case (Cons x xs)
  then obtain ys where ys: "array_sort cmp xs = Inr ys" "mset ys = mset xs"
    "\<forall>c. filter (\<lambda>r. k r = c) ys = filter (\<lambda>r. k r = c) xs" "ordered up k ys" by auto
  have "set ys = set xs" using ys(2) by (metis set_mset_mset)
  then have "\<forall>y\<in>set ys. cmp y x = key_cmp up k y x" using Cons.prems by simp
  from sort_insert_key[where cmp=cmp and up=up and k=k, OF this] obtain zs
    where zs: "sort_insert cmp x ys = Inr zs"
      "mset zs = add_mset x (mset ys)"
      "\<forall>c. filter (\<lambda>r. k r = c) zs = filter (\<lambda>r. k r = c) (x # ys)"
      "ordered up k ys \<longrightarrow> ordered up k zs" by blast
  show ?case using ys zs by auto
qed

lemma array_sort_length:
  "array_sort cmp xs = Inr zs \<Longrightarrow> length zs = length xs"
proof (induction xs arbitrary: zs)
  case Nil
  then show ?case by simp
next
  case (Cons x xs)
  have ins: "sort_insert cmp x ys = Inr ws \<Longrightarrow> length ws = Suc (length ys)" for ys ws
    by (induction ys arbitrary: ws) (auto split: sum.splits if_splits)
  from Cons show ?case by (auto split: sum.splits dest: ins)
qed

lemma sortData_length:
  "sortData rows f d = Inr zs \<Longrightarrow> length zs = length rows"
  unfolding sortData_def by (rule array_sort_length)

lemma text_columnD:
  assumes "text_column f rows" "a \<in> set rows"
  obtains s where "js_or (get_field a f) (JStr '''') = JStr s"
proof -
  have "case js_or (get_field a f) (JStr '''') of JStr s \<Rightarrow> True | _ \<Rightarrow> False"
    using assms by (simp add: text_column_def list_all_iff)
  then show thesis using that by (cases "js_or (get_field a f) (JStr '''')") auto
qed

lemma number_columnD:
  assumes "number_column f rows" "a \<in> set rows"
  obtains n where "js_or (get_field a f) (JStr '''') = JNum n"
proof -
  have "case js_or (get_field a f) (JStr '''') of JNum n \<Rightarrow> True | _ \<Rightarrow> False"
    using assms by (simp add: number_column_def list_all_iff)
  then show thesis using that by (cases "js_or (get_field a f) (JStr '''')") auto
qed

lemma compare_text_column:
  assumes "text_column f rows" "a \<in> set rows" "b \<in> set rows"
  shows "sortData_compare f d a b = key_cmp (d \<noteq> ''desc'') (text_key f) a b"
proof -
  obtain sa where sa: "js_or (get_field a f) (JStr '''') = JStr sa"
    using assms(1,2) by (rule text_columnD)
  obtain sb where sb: "js_or (get_field b f) (JStr '''') = JStr sb"
    using assms(1,3) by (rule text_columnD)
  have "js_or (JStr sb) (JStr '''') = JStr sb" by (simp add: js_or_def)
  then show ?thesis using sa sb
    by (simp add: sortData_compare_def key_cmp_def text_key_def js_gt_def)
qed

lemma compare_number_column:
  assumes "number_column f rows" "a \<in> set rows" "b \<in> set rows"
  shows "sortData_compare f d a b = key_cmp (d \<noteq> ''desc'') (number_key f) a b"
proof -
  obtain na where na: "js_or (get_field a f) (JStr '''') = JNum na"
    using assms(1,2) by (rule number_columnD)
  obtain nb where nb: "js_or (get_field b f) (JStr '''') = JNum nb"
    using assms(1,3) by (rule number_columnD)
  show ?thesis using na nb
    by (simp add: sortData_compare_def key_cmp_def number_key_def js_gt_def)
qed

lemma sort_value_text:
  "text_column f rows \<Longrightarrow> r \<in> set rows \<Longrightarrow> sort_value f r = JStr (text_key f r)"
  by (erule (1) text_columnD) (simp add: sort_value_def text_key_def)

lemma sort_value_number:
  "number_column f rows \<Longrightarrow> r \<in> set rows \<Longrightarrow> sort_value f r = JNum (number_key f r)"
  by (erule (1) number_columnD) (simp add: sort_value_def number_key_def)

lemma filter_key_transfer:
  assumes "set zs = set rows"
    and "\<forall>c. filter (\<lambda>r. k r = c) zs = filter (\<lambda>r. k r = c) rows"
    and "\<forall>r\<in>set rows. sv r = g (k r)" and "inj g"
  shows "filter (\<lambda>r. sv r = v) zs = filter (\<lambda>r. sv r = v) rows"
proof (cases "v \<in> range g")
  case True
  then obtain c where c: "v = g c" by auto
  have "filter (\<lambda>r. sv r = v) zs = filter (\<lambda>r. k r = c) zs"
    using assms(1,3,4) c by (intro filter_cong) (auto dest: injD)
  moreover have "filter (\<lambda>r. sv r = v) rows = filter (\<lambda>r. k r = c) rows"
    using assms(3,4) c by (intro filter_cong) (auto dest: injD)
  ultimately show ?thesis using assms(2) by simp
next
  case False
  then have "filter (\<lambda>r. sv r = v) zs = []" "filter (\<lambda>r. sv r = v) rows = []"
    using assms(1,3) by (auto simp: filter_empty_conv)
  then show ?thesis by simp
qed

lemma same_letters_tie:
  assumes "get_field a f = JStr s" "get_field b f = JStr t" "toLowerCase s = toLowerCase t"
  shows "sort_value f a = sort_value f b \<and> sortData_compare f d a b = Inr 0"
proof -
  have a: "js_or (get_field a f) (JStr '''') = JStr s"
    using assms(1) by (simp add: js_or_def)
  have b: "js_or (get_field b f) (JStr '''') = JStr t"
    using assms(2) by (simp add: js_or_def)
  have "js_or (JStr t) (JStr '''') = JStr t" by (simp add: js_or_def)
  then show ?thesis using a b assms(3)
    by (simp add: sort_value_def sortData_compare_def js_gt_def)
qed

lemma sortData_asc_desc_by_key:
  fixes k :: "row \<Rightarrow> 'k::linorder"
  assumes cmp: "\<And>d a b. a \<in> set rows \<Longrightarrow> b \<in> set rows \<Longrightarrow>
                  sortData_compare f d a b = key_cmp (d \<noteq> ''desc'') k a b"
    and sv: "\<forall>r\<in>set rows. sort_value f r = g (k r)"
    and g: "inj g" "\<And>u v. js_lt (g u) (g v) = (u < v)"
  shows "\<exists>asc desc.
      sortData rows f ''asc'' = Inr asc \<and> sortData asc f ''desc'' = Inr desc
    \<and> mset asc = mset rows \<and> mset desc = mset rows
    \<and> sorted_wrt (\<lambda>a b. \<not> js_lt (sort_value f b) (sort_value f a)) asc
    \<and> sorted_wrt (\<lambda>a b. \<not> js_lt (sort_value f a) (sort_value f b)) desc
    \<and> map (sort_value f) desc = rev (map (sort_value f) asc)
    \<and> (distinct (map (sort_value f) rows) \<longrightarrow> desc = rev asc)
    \<and> (\<forall>v. filter (\<lambda>r. sort_value f r = v) asc = filter (\<lambda>r. sort_value f r = v) rows)
    \<and> (\<forall>v. filter (\<lambda>r. sort_value f r = v) desc = filter (\<lambda>r. sort_value f r = v) rows)"
proof -
  have "\<forall>x\<in>set rows. \<forall>y\<in>set rows. sortData_compare f ''asc'' x y = key_cmp True k x y"
    using cmp[of _ _ "''asc''"] by simp
  from array_sort_key[where cmp="sortData_compare f ''asc''" and up=True and k=k, OF this]
  obtain asc where asc: "sortData rows f ''asc'' = Inr asc" "mset asc = mset rows"
    "\<forall>c. filter (\<lambda>r. k r = c) asc = filter (\<lambda>r. k r = c) rows" "sorted (map k asc)"
    by (auto simp: sortData_def ordered_def)
  have set_asc: "set asc = set rows" using asc(2) by (metis set_mset_mset)
  have "\<forall>x\<in>set asc. \<forall>y\<in>set asc. sortData_compare f ''desc'' x y = key_cmp False k x y"
    using cmp[of _ _ "''desc''"] set_asc by simp
  from array_sort_key[where cmp="sortData_compare f ''desc''" and up=False and k=k, OF this]
  obtain desc where desc: "sortData asc f ''desc'' = Inr desc" "mset desc = mset asc"
    "\<forall>c. filter (\<lambda>r. k r = c) desc = filter (\<lambda>r. k r = c) asc" "sorted (rev (map k desc))"
    by (auto simp: sortData_def ordered_def)
  have set_desc: "set desc = set rows" using desc(2) asc(2) by (metis set_mset_mset)
  have sv_asc: "map (sort_value f) asc = map g (map k asc)"
    using sv set_asc by simp
  have sv_desc: "map (sort_value f) desc = map g (map k desc)"
    using sv set_desc by simp
  have "sort (map k rows) = map k asc"
    by (rule properties_for_sort) (use asc in \<open>simp_all\<close>)
  moreover have "sort (map k rows) = rev (map k desc)"
    by (rule properties_for_sort) (use asc desc in \<open>simp_all\<close>)
  ultimately have mirror_k: "map k desc = rev (map k asc)"
    by (metis rev_rev_ident)
  have mirror: "map (sort_value f) desc = rev (map (sort_value f) asc)"
    using mirror_k sv_asc sv_desc by (simp add: rev_map)
  have le_asc: "sorted_wrt (\<lambda>a b. \<not> js_lt (sort_value f b) (sort_value f a)) asc"
  proof -
    have "sorted_wrt (\<lambda>a b. k a \<le> k b) asc" using asc(4) by (simp add: sorted_map)
    then show ?thesis
      by (rule sorted_wrt_mono_rel[rotated]) (use sv set_asc g(2) in \<open>auto simp: not_less\<close>)
  qed
  have le_desc: "sorted_wrt (\<lambda>a b. \<not> js_lt (sort_value f a) (sort_value f b)) desc"
  proof -
    have "sorted_wrt (\<lambda>a b. k b \<le> k a) desc"
      using desc(4) by (simp add: sorted_wrt_rev sorted_wrt_map)
    then show ?thesis
      by (rule sorted_wrt_mono_rel[rotated]) (use sv set_desc g(2) in \<open>auto simp: not_less\<close>)
  qed
  have exact: "desc = rev asc" if "distinct (map (sort_value f) rows)"
  proof -
    have "inj_on (sort_value f) (set rows)" using that by (simp add: distinct_map)
    then have "inj_on k (set rows)" using sv by (auto simp: inj_on_def)
    moreover have "map k desc = map k (rev asc)" using mirror_k by (simp add: rev_map)
    ultimately show ?thesis using set_asc set_desc
      by (metis inj_on_map_eq_map set_rev sup.idem)
  qed
  have st_asc: "filter (\<lambda>r. sort_value f r = v) asc = filter (\<lambda>r. sort_value f r = v) rows"
    for v by (rule filter_key_transfer[OF set_asc asc(3) sv g(1)])
  have "\<forall>c. filter (\<lambda>r. k r = c) desc = filter (\<lambda>r. k r = c) rows"
    using desc(3) asc(3) by simp
  then have st_desc:
    "filter (\<lambda>r. sort_value f r = v) desc = filter (\<lambda>r. sort_value f r = v) rows" for v
    by (rule filter_key_transfer[OF set_desc _ sv g(1)])
  show ?thesis
    using asc(1,2) desc(1,2) le_asc le_desc mirror exact st_asc st_desc by auto
qed

text \<open>
  C9, as amended. On a column whose cells are all falsy or strings, or all numbers other
  than zero, sorting ascending and then descending succeeds both times and permutes the
  rows; the ascending list is ordered upwards and the descending list downwards by the
  lower-cased value; the values of the descending list are the values of the ascending
  list read backwards, and the lists themselves are mirror images when no two rows share
  a value; rows with the same value keep their original relative order in both lists;
  and two strings that differ only in the case of their letters are the same value and
  compare as equal.
\<close>

theorem sortData_asc_then_desc:
  assumes "text_column f rows \<or> number_column f rows"
  shows "(\<exists>asc desc.
      sortData rows f ''asc'' = Inr asc \<and> sortData asc f ''desc'' = Inr desc
    \<and> mset asc = mset rows \<and> mset desc = mset rows
    \<and> sorted_wrt (\<lambda>a b. \<not> js_lt (sort_value f b) (sort_value f a)) asc
    \<and> sorted_wrt (\<lambda>a b. \<not> js_lt (sort_value f a) (sort_value f b)) desc
    \<and> map (sort_value f) desc = rev (map (sort_value f) asc)
    \<and> (distinct (map (sort_value f) rows) \<longrightarrow> desc = rev asc)
    \<and> (\<forall>v. filter (\<lambda>r. sort_value f r = v) asc = filter (\<lambda>r. sort_value f r = v) rows)
    \<and> (\<forall>v. filter (\<lambda>r. sort_value f r = v) desc = filter (\<lambda>r. sort_value f r = v) rows))
    \<and> (\<forall>a b s t d. get_field a f = JStr s \<and> get_field b f = JStr t
          \<and> toLowerCase s = toLowerCase t
          \<longrightarrow> sort_value f a = sort_value f b \<and> sortData_compare f d a b = Inr 0)"
proof (rule conjI)
  show "\<forall>a b s t d. get_field a f = JStr s \<and> get_field b f = JStr t
          \<and> toLowerCase s = toLowerCase t
          \<longrightarrow> sort_value f a = sort_value f b \<and> sortData_compare f d a b = Inr 0"
    using same_letters_tie by blast
next
  from assms show "\<exists>asc desc.
      sortData rows f ''asc'' = Inr asc \<and> sortData asc f ''desc'' = Inr desc
    \<and> mset asc = mset rows \<and> mset desc = mset rows
    \<and> sorted_wrt (\<lambda>a b. \<not> js_lt (sort_value f b) (sort_value f a)) asc
    \<and> sorted_wrt (\<lambda>a b. \<not> js_lt (sort_value f a) (sort_value f b)) desc
    \<and> map (sort_value f) desc = rev (map (sort_value f) asc)
    \<and> (distinct (map (sort_value f) rows) \<longrightarrow> desc = rev asc)
    \<and> (\<forall>v. filter (\<lambda>r. sort_value f r = v) asc = filter (\<lambda>r. sort_value f r = v) rows)
    \<and> (\<forall>v. filter (\<lambda>r. sort_value f r = v) desc = filter (\<lambda>r. sort_value f r = v) rows)"
  proof
    assume t: "text_column f rows"
    show ?thesis
      by (rule sortData_asc_desc_by_key[where k="text_key f" and g=JStr])
         (use t in \<open>auto simp: compare_text_column sort_value_text inj_def\<close>)
  next
    assume n: "number_column f rows"
    show ?thesis
      by (rule sortData_asc_desc_by_key[where k="number_key f" and g=JNum])
         (use n in \<open>auto simp: compare_number_column sort_value_number inj_def\<close>)
  qed
qed

theorem sortData_asc_then_desc_witness:
  "text_column ''Name''
     [[(''Id'', JStr ''1''), (''Name'', JStr ''bob'')],
      [(''Id'', JStr ''2''), (''Name'', JStr ''Ann'')],
      [(''Id'', JStr ''3'')],
      [(''Id'', JStr ''4''), (''Name'', JStr ''ann'')]]
   \<and> sortData
       [[(''Id'', JStr ''1''), (''Name'', JStr ''bob'')],
        [(''Id'', JStr ''2''), (''Name'', JStr ''Ann'')],
        [(''Id'', JStr ''3'')],
        [(''Id'', JStr ''4''), (''Name'', JStr ''ann'')]] ''Name'' ''asc''
     = Inr [[(''Id'', JStr ''3'')],
            [(''Id'', JStr ''2''), (''Name'', JStr ''Ann'')],
            [(''Id'', JStr ''4''), (''Name'', JStr ''ann'')],
            [(''Id'', JStr ''1''), (''Name'', JStr ''bob'')]]
   \<and> sortData
       [[(''Id'', JStr ''3'')],
        [(''Id'', JStr ''2''), (''Name'', JStr ''Ann'')],
        [(''Id'', JStr ''4''), (''Name'', JStr ''ann'')],
        [(''Id'', JStr ''1''), (''Name'', JStr ''bob'')]] ''Name'' ''desc''
     = Inr [[(''Id'', JStr ''1''), (''Name'', JStr ''bob'')],
            [(''Id'', JStr ''2''), (''Name'', JStr ''Ann'')],
            [(''Id'', JStr ''4''), (''Name'', JStr ''ann'')],
            [(''Id'', JStr ''3'')]]"
proof -
  let ?rows = "[[(''Id'', JStr ''1''), (''Name'', JStr ''bob'')],
      [(''Id'', JStr ''2''), (''Name'', JStr ''Ann'')],
      [(''Id'', JStr ''3'')],
      [(''Id'', JStr ''4''), (''Name'', JStr ''ann'')]]"
  have h: "text_column ''Name'' ?rows" by code_simp
  have a: "sortData ?rows ''Name'' ''asc''
     = Inr [[(''Id'', JStr ''3'')],
            [(''Id'', JStr ''2''), (''Name'', JStr ''Ann'')],
            [(''Id'', JStr ''4''), (''Name'', JStr ''ann'')],
            [(''Id'', JStr ''1''), (''Name'', JStr ''bob'')]]" by code_simp
  from sortData_asc_then_desc[of "''Name''" ?rows] h
  obtain asc desc where "sortData ?rows ''Name'' ''asc'' = Inr asc"
    "sortData asc ''Name'' ''desc'' = Inr desc"
    "map (sort_value ''Name'') desc = rev (map (sort_value ''Name'') asc)" by blast
  have d: "sortData
       [[(''Id'', JStr ''3'')],
        [(''Id'', JStr ''2''), (''Name'', JStr ''Ann'')],
        [(''Id'', JStr ''4''), (''Name'', JStr ''ann'')],
        [(''Id'', JStr ''1''), (''Name'', JStr ''bob'')]] ''Name'' ''desc''
     = Inr [[(''Id'', JStr ''1''), (''Name'', JStr ''bob'')],
            [(''Id'', JStr ''2''), (''Name'', JStr ''Ann'')],
            [(''Id'', JStr ''4''), (''Name'', JStr ''ann'')],
            [(''Id'', JStr ''3'')]]" by code_simp
  show ?thesis using h a d by simp
qed

theorem sortData_mirror_counterexample:
  "sortData [[(''Id'', JStr ''1''), (''Name'', JStr ''Ann'')],
             [(''Id'', JStr ''2''), (''Name'', JStr ''ann'')]] ''Name'' ''asc''
     = Inr [[(''Id'', JStr ''1''), (''Name'', JStr ''Ann'')],
            [(''Id'', JStr ''2''), (''Name'', JStr ''ann'')]]
   \<and> sortData [[(''Id'', JStr ''1''), (''Name'', JStr ''Ann'')],
               [(''Id'', JStr ''2''), (''Name'', JStr ''ann'')]] ''Name'' ''desc''
     = Inr [[(''Id'', JStr ''1''), (''Name'', JStr ''Ann'')],
            [(''Id'', JStr ''2''), (''Name'', JStr ''ann'')]]
   \<and> [[(''Id'', JStr ''1''), (''Name'', JStr ''Ann'')],
       [(''Id'', JStr ''2''), (''Name'', JStr ''ann'')]]
     \<noteq> rev [[(''Id'', JStr ''1''), (''Name'', JStr ''Ann'')],
            [(''Id'', JStr ''2''), (''Name'', JStr ''ann'')]]
   \<and> sortData [[(''Id'', JStr ''1''), (''Amount'', JNum 5)],
               [(''Id'', JStr ''2'')]] ''Amount'' ''asc'' = Inl TypeError
   \<and> sortData [[(''Id'', JStr ''1''), (''Amount'', JNum 5)],
               [(''Id'', JStr ''2'')]] ''Amount'' ''desc'' = Inl TypeError"
  by code_simp

lemma empty_before_text:
  "t \<noteq> [] \<Longrightarrow> [] < toLowerCase t \<and> \<not> toLowerCase t < []"
  by (cases t) (simp_all add: toLowerCase_def)

lemma toLowerCase_Nil: "toLowerCase [] = []"
  by (simp add: toLowerCase_def)

lemma blank_is_zero: "string_to_number [] = Some 0"
  by (simp add: string_to_number_def trim_def)

text \<open>
  C10. The falsy cells are \<^verbatim>\<open>undefined\<close>, \<^verbatim>\<open>null\<close>, \<^verbatim>\<open>false\<close>, the number 0 and the
  empty string, and the comparator replaces each of them by the empty string: a row with
  a falsy cell compares, on either side and against any row, exactly as the row with the
  empty string in that cell does, and two rows with falsy cells tie. Such a row, a row
  with the number 0 among them, is compared as the empty string and not as a number:
  against a row with a non-empty string it sorts first when ascending and last when
  descending, on whichever side it stands; with a row that holds a number other than
  zero as second argument the comparator throws a \<^verbatim>\<open>TypeError\<close>, because the first
  value is a string and the number has no \<^verbatim>\<open>toLowerCase\<close>; and with that row as first
  argument the number is compared with the empty string, that is with zero.
\<close>

theorem falsy_cell_sorts_as_empty_string:
  "(\<not> js_truthy v \<longleftrightarrow> v \<in> {JUndefined, JNull, JBool False, JNum 0, JStr ''''})
   \<and> (\<not> js_truthy v \<longrightarrow> js_or v (JStr '''') = JStr '''')
   \<and> (\<not> js_truthy (get_field a f) \<and> get_field a' f = JStr '''' \<longrightarrow>
        sortData_compare f d a b = sortData_compare f d a' b \<and>
        sortData_compare f d b a = sortData_compare f d b a')
   \<and> (\<not> js_truthy (get_field a f) \<and> \<not> js_truthy (get_field b f) \<longrightarrow>
        sortData_compare f d a b = Inr 0)
   \<and> (\<not> js_truthy (get_field a f) \<and> get_field c f = JStr t \<and> t \<noteq> [] \<longrightarrow>
        sortData_compare f d a c = Inr (if d = ''desc'' then 1 else - 1) \<and>
        sortData_compare f d c a = Inr (if d = ''desc'' then - 1 else 1))
   \<and> (\<not> js_truthy (get_field a f) \<and> get_field c f = JNum n \<and> n \<noteq> 0 \<longrightarrow>
        sortData_compare f d a c = Inl TypeError \<and>
        sortData_compare f d c a =
          Inr (if 0 < n then (if d = ''desc'' then - 1 else 1)
               else (if d = ''desc'' then 1 else - 1)))"
proof -
  have 1: "\<not> js_truthy v \<longleftrightarrow> v \<in> {JUndefined, JNull, JBool False, JNum 0, JStr ''''}"
    by (cases v) auto
  have 2: "js_or w (JStr '''') = JStr ''''" if "\<not> js_truthy w" for w
    using that by (simp add: js_or_def)
  have 3: "sortData_compare f d a b = sortData_compare f d a' b \<and>
        sortData_compare f d b a = sortData_compare f d b a'"
    if "\<not> js_truthy (get_field a f)" "get_field a' f = JStr ''''"
    using that by (simp add: sortData_compare_def js_or_def)
  have 4: "sortData_compare f d a b = Inr 0"
    if "\<not> js_truthy (get_field a f)" "\<not> js_truthy (get_field b f)"
    using that by (simp add: sortData_compare_def js_or_def js_gt_def)
  have 5: "sortData_compare f d a c = Inr (if d = ''desc'' then 1 else - 1) \<and>
        sortData_compare f d c a = Inr (if d = ''desc'' then - 1 else 1)"
    if "\<not> js_truthy (get_field a f)" "get_field c f = JStr t" "t \<noteq> []"
    using that empty_before_text[of t]
    by (simp add: sortData_compare_def js_or_def js_gt_def toLowerCase_Nil)
  have 6: "sortData_compare f d a c = Inl TypeError \<and>
        sortData_compare f d c a =
          Inr (if 0 < n then (if d = ''desc'' then - 1 else 1)
               else (if d = ''desc'' then 1 else - 1))"
    if "\<not> js_truthy (get_field a f)" "get_field c f = JNum n" "n \<noteq> 0"
    using that by (auto simp: sortData_compare_def js_or_def js_gt_def blank_is_zero)
  show ?thesis using 1 2 3 4 5 6 by blast
qed

theorem falsy_cell_sorts_as_empty_string_witness:
  "\<not> js_truthy (JNum 0) \<and> js_or (JNum 0) (JStr '''') = JStr ''''
   \<and> sortData_compare ''Amount'' ''asc'' [(''Amount'', JNum 0)] [(''Amount'', JStr ''x'')]
     = sortData_compare ''Amount'' ''asc'' [(''Amount'', JStr '''')] [(''Amount'', JStr ''x'')]
   \<and> sortData_compare ''Amount'' ''asc'' [(''Amount'', JNum 0)] [(''Id'', JStr ''7'')] = Inr 0
   \<and> sortData_compare ''Amount'' ''asc'' [(''Amount'', JNum 0)] [(''Amount'', JStr ''x'')]
     = Inr (- 1)
   \<and> sortData_compare ''Amount'' ''asc'' [(''Amount'', JStr ''x'')] [(''Amount'', JNum 0)]
     = Inr 1
   \<and> sortData_compare ''Amount'' ''desc'' [(''Amount'', JNum 0)] [(''Amount'', JStr ''x'')]
     = Inr 1
   \<and> sortData_compare ''Amount'' ''asc'' [(''Amount'', JNum 0)] [(''Amount'', JNum 7)]
     = Inl TypeError
   \<and> sortData_compare ''Amount'' ''asc'' [(''Amount'', JNum 7)] [(''Amount'', JNum 0)]
     = Inr 1
   \<and> sortData_compare ''Amount'' ''asc'' [(''Amount'', JNum (- 5))] [(''Amount'', JNum 0)]
     = Inr (- 1)"
proof -
  have a: "\<not> js_truthy (get_field [(''Amount'', JNum 0)] ''Amount'')"
    by (simp add: get_field_def)
  have a': "get_field [(''Amount'', JStr '''')] ''Amount'' = JStr ''''"
    by (simp add: get_field_def)
  have b: "\<not> js_truthy (get_field [(''Id'', JStr ''7'')] ''Amount'')"
    by (simp add: get_field_def)
  have x: "get_field [(''Amount'', JStr ''x'')] ''Amount'' = JStr ''x'' \<and> ''x'' \<noteq> []"
    by (simp add: get_field_def)
  have n7: "get_field [(''Amount'', JNum 7)] ''Amount'' = JNum 7 \<and> (7::int) \<noteq> 0"
    by (simp add: get_field_def)
  have n5: "get_field [(''Amount'', JNum (- 5))] ''Amount'' = JNum (- 5) \<and> (- 5::int) \<noteq> 0"
    by (simp add: get_field_def)
  have v: "\<not> js_truthy (JNum 0)" by simp
  note t1 = falsy_cell_sorts_as_empty_string[where v="JNum 0"
      and a="[(''Amount'', JNum 0)]" and f="''Amount''"
      and a'="[(''Amount'', JStr '''')]" and d="''asc''" and b="[(''Amount'', JStr ''x'')]"
      and c="[(''Amount'', JStr ''x'')]" and t="''x''" and n=7]
  note t2 = falsy_cell_sorts_as_empty_string[where v="JNum 0"
      and a="[(''Amount'', JNum 0)]" and f="''Amount''"
      and a'="[(''Amount'', JStr '''')]" and d="''desc''" and b="[(''Id'', JStr ''7'')]"
      and c="[(''Amount'', JStr ''x'')]" and t="''x''" and n=7]
  note t3 = falsy_cell_sorts_as_empty_string[where v="JNum 0"
      and a="[(''Amount'', JNum 0)]" and f="''Amount''"
      and a'="[(''Amount'', JStr '''')]" and d="''asc''" and b="[(''Id'', JStr ''7'')]"
      and c="[(''Amount'', JNum 7)]" and t="''x''" and n=7]
  note t4 = falsy_cell_sorts_as_empty_string[where v="JNum 0"
      and a="[(''Amount'', JNum 0)]" and f="''Amount''"
      and a'="[(''Amount'', JStr '''')]" and d="''asc''" and b="[(''Id'', JStr ''7'')]"
      and c="[(''Amount'', JNum (- 5))]" and t="''x''" and n="- 5"]
  have 1: "js_or (JNum 0) (JStr '''') = JStr ''''"
    "sortData_compare ''Amount'' ''asc'' [(''Amount'', JNum 0)] [(''Amount'', JStr ''x'')]
     = sortData_compare ''Amount'' ''asc'' [(''Amount'', JStr '''')] [(''Amount'', JStr ''x'')]"
    using t1 a a' v by blast+
  have 2: "sortData_compare ''Amount'' ''asc'' [(''Amount'', JNum 0)] [(''Id'', JStr ''7'')]
             = Inr 0"
    using t3 a b by blast
  have 3: "sortData_compare ''Amount'' ''asc'' [(''Amount'', JNum 0)] [(''Amount'', JStr ''x'')]
             = Inr (- 1)"
    "sortData_compare ''Amount'' ''asc'' [(''Amount'', JStr ''x'')] [(''Amount'', JNum 0)]
             = Inr 1"
    using t1 a x by simp_all
  have 4: "sortData_compare ''Amount'' ''desc'' [(''Amount'', JNum 0)] [(''Amount'', JStr ''x'')]
             = Inr 1"
    using t2 a x by simp
  have 5: "sortData_compare ''Amount'' ''asc'' [(''Amount'', JNum 0)] [(''Amount'', JNum 7)]
             = Inl TypeError"
    "sortData_compare ''Amount'' ''asc'' [(''Amount'', JNum 7)] [(''Amount'', JNum 0)]
             = Inr 1"
    using t3 a n7 by simp_all
  have 6: "sortData_compare ''Amount'' ''asc'' [(''Amount'', JNum (- 5))] [(''Amount'', JNum 0)]
             = Inr (- 1)"
    using t4 a n5 by simp
  show ?thesis using v 1 2 3 4 5 6 by simp
qed

section \<open>Runs of events\<close>

lemmas handler_defs =
  connectedCallback_def disconnectedCallback_def loadInitialData_begin_def
  loadInitialData_end_def handleContactSearch_def handleOpportunitySearch_def
  executeContactSearch_begin_def executeContactSearch_end_def
  executeOpportunitySearch_begin_def executeOpportunitySearch_end_def
  contactDebounceTimer_fired_def opportunityDebounceTimer_fired_def
  handleContactLoadMore_begin_def handleContactLoadMore_end_def
  handleOpportunityLoadMore_begin_def handleOpportunityLoadMore_end_def
  reloadData_begin_def reloadData_end_def deleteRow_begin_def deleteRow_deleted_def
  deleteRow_end_def handleRowAction_def handleContactSave_begin_def
  handleContactSave_updated_def handleContactSave_notified_def handleContactSave_end_def
  handleOpportunitySave_begin_def handleOpportunitySave_updated_def
  handleOpportunitySave_notified_def handleOpportunitySave_end_def
  handleContactCancel_def handleOpportunityCancel_def handleContactSort_def
  handleOpportunitySort_def handleRefresh_begin_def handleRefresh_end_def
  handleTabClick_def mutation_end_def and_then_def

lemma length_addRecordUrls [simp]: "length (addRecordUrls rs) = length rs"
  by (simp add: addRecordUrls_def)

lemma addRecordUrls_append:
  "addRecordUrls (xs @ ys) = addRecordUrls xs @ addRecordUrls ys"
  by (simp add: addRecordUrls_def)

lemma run_append:
  "run s (es @ es') = and_then (run s es) (\<lambda>s'. run s' es')"
  by (induction es arbitrary: s) (auto simp: and_then_def split: prod.splits)

lemma fst_run_snoc:
  "fst (run s (es @ [e])) = fst (step (fst (run s es)) e)"
  by (simp add: run_append and_then_def split: prod.splits)

lemma fst_run_Cons: "fst (run s (e # es)) = fst (run (fst (step s e)) es)"
  by (simp add: and_then_def split: prod.splits)

lemma trim_Nil [simp]: "trim [] = []"
  by (simp add: trim_def)

section \<open>Initial load\<close>

lemma set_map_filter_eq:
  "set (List.map_filter f xs) = {y. \<exists>x\<in>set xs. f x = Some y}"
  by (induction xs) (auto split: option.splits)

lemma rejection_reasons_hd:
  assumes "Some e0 \<in> set rs"
  shows "Some (hd (rejection_reasons settle rs)) \<in> set rs"
proof -
  let ?f = "\<lambda>i. if i < length rs then rs ! i else None"
  let ?l = "rejection_reasons settle rs"
  obtain i where i: "i < length rs" "rs ! i = Some e0"
    using assms by (auto simp: in_set_conv_nth)
  have "e0 \<in> set ?l"
    unfolding rejection_reasons_def set_map_filter_eq using i by auto
  then have "?l \<noteq> []" by auto
  then have "hd ?l \<in> set ?l" by simp
  then obtain j where "?f j = Some (hd ?l)"
    unfolding rejection_reasons_def set_map_filter_eq by auto
  then have "j < length rs" "rs ! j = Some (hd ?l)" by (auto split: if_splits)
  then show ?thesis by (metis nth_mem)
qed

lemma promise_all4_rejects:
  assumes "reason a \<noteq> None \<or> reason b \<noteq> None \<or> reason c \<noteq> None \<or> reason d \<noteq> None"
  shows "\<exists>error. promise_all4 settle a b c d = Inl error
           \<and> Some error \<in> {reason a, reason b, reason c, reason d}"
proof -
  from assms have "\<exists>e0. Some e0 \<in> set [reason a, reason b, reason c, reason d]"
    by (cases "reason a"; cases "reason b"; cases "reason c"; cases "reason d") auto
  then obtain e0 where "Some e0 \<in> set [reason a, reason b, reason c, reason d]" ..
  from rejection_reasons_hd[OF this, of settle]
  have "Some (hd (rejection_reasons settle [reason a, reason b, reason c, reason d]))
          \<in> {reason a, reason b, reason c, reason d}" by simp
  moreover have "promise_all4 settle a b c d
      = Inl (hd (rejection_reasons settle [reason a, reason b, reason c, reason d]))"
    using assms by (auto simp: promise_all4_def reason_def split: sum.splits)
  ultimately show ?thesis by blast
qed

text \<open>
  C2. When one of the four fetches of the initial load fails, the awaited
  \<^verbatim>\<open>Promise.all\<close> rejects with the reason of one of the failed fetches, and the only
  fields assigned are the two error flags, both set to that reason, and the loading
  flag: the paginated rows, the total counts, the offsets and the infinite-loading flags
  have the values they had before \<^verbatim>\<open>_loadInitialData\<close> was called. The same holds
  when the load is awaited by a refresh.
\<close>

theorem initial_load_all_or_nothing:
  assumes "reason cs \<noteq> None \<or> reason os \<noteq> None \<or> reason cc \<noteq> None \<or> reason oc \<noteq> None"
  shows "\<exists>error. Some error \<in> {reason cs, reason os, reason cc, reason oc}
      \<and> step s (InitialDataSettled False settle cs os cc oc)
          = (s\<lparr>contactError := Some error, opportunityError := Some error,
               isLoading := False\<rparr>, [])
      \<and> fst (run s [ConnectedCallback, InitialDataSettled False settle cs os cc oc])
          = s\<lparr>contactError := Some error, opportunityError := Some error,
               isLoading := False\<rparr>
      \<and> fst (step s (InitialDataSettled True settle cs os cc oc))
          = s\<lparr>contactError := Some error, opportunityError := Some error,
               isLoading := False\<rparr>"
proof -
  from promise_all4_rejects[OF assms, of settle] obtain error
    where e: "promise_all4 settle cs os cc oc = Inl error"
      "Some error \<in> {reason cs, reason os, reason cc, reason oc}" by blast
  show ?thesis
    by (rule exI[of _ error]) (use e in \<open>simp add: handler_defs\<close>)
qed

theorem initial_load_all_or_nothing_witness:
  "reason (Inl (ApexError ''boom'') :: js_error + row list) \<noteq> None
   \<and> step initial_component
        (InitialDataSettled False [1, 0, 2, 3] (Inr [[(''Id'', JStr ''003A'')]])
           (Inl (ApexError ''boom'')) (Inr 1) (Inr 0))
     = (initial_component\<lparr>contactError := Some (ApexError ''boom''),
          opportunityError := Some (ApexError ''boom''), isLoading := False\<rparr>, [])"
proof -
  have h: "reason (Inr [[(''Id'', JStr ''003A'')]] :: js_error + row list) \<noteq> None
         \<or> reason (Inl (ApexError ''boom'') :: js_error + row list) \<noteq> None
         \<or> reason (Inr 1 :: js_error + int) \<noteq> None
         \<or> reason (Inr 0 :: js_error + int) \<noteq> None"
    by (simp add: reason_def)
  from initial_load_all_or_nothing[OF h, of initial_component "[1, 0, 2, 3]"]
  obtain error where e:
    "Some error \<in> {reason (Inr [[(''Id'', JStr ''003A'')]] :: js_error + row list),
        reason (Inl (ApexError ''boom'') :: js_error + row list),
        reason (Inr 1 :: js_error + int), reason (Inr 0 :: js_error + int)}"
    "step initial_component
        (InitialDataSettled False [1, 0, 2, 3] (Inr [[(''Id'', JStr ''003A'')]])
           (Inl (ApexError ''boom'')) (Inr 1) (Inr 0))
     = (initial_component\<lparr>contactError := Some error,
          opportunityError := Some error, isLoading := False\<rparr>, [])"
    by blast
  from e(1) have "error = ApexError ''boom''" by (simp add: reason_def)
  with e(2) show ?thesis by (simp add: reason_def)
qed

lemma three_pages:
  "take 50 xs @ take 50 (drop 50 xs) @ drop 100 xs = xs"
proof -
  have a: "take 50 xs @ take 50 (drop 50 xs) = take 100 xs"
    using take_add[of 50 50 xs] by simp
  have "take 50 xs @ take 50 (drop 50 xs) @ drop 100 xs
          = (take 50 xs @ take 50 (drop 50 xs)) @ drop 100 xs" by simp
  also have "\<dots> = take 100 xs @ drop 100 xs" by (simp only: a)
  also have "\<dots> = xs" by simp
  finally show ?thesis .
qed

lemma initial_load_success:
  "step s (InitialDataSettled False settle (Inr cs) (Inr os) (Inr cc) (Inr oc)) =
     (s\<lparr>paginatedContacts := addRecordUrls cs,
        paginatedOpportunities := addRecordUrls os,
        totalContactCount := cc, totalOpportunityCount := oc,
        contactOffset := length cs, opportunityOffset := length os,
        enableContactInfiniteLoading := (length cs \<ge> PAGE_SIZE),
        enableOpportunityInfiniteLoading := (length os \<ge> PAGE_SIZE),
        contactError := None, opportunityError := None, isLoading := False\<rparr>, [])"
  by (simp add: handler_defs promise_all4_def)

text \<open>
  C3. After a successful initial load whose pages hold at most \<open>PAGE_SIZE\<close> rows, as
  the pages of the gateway do, each offset is the number of rows returned and each
  infinite-loading flag is true exactly when that number is the page size. With 120
  rows on the server for each collection and a page size of 50, the initial load asks
  for the first page of each collection (page size 50, offset 0) and for the two counts,
  and leaves 50 rows, the flag true and the offset 50; the next load-more asks for
  offset 50 and
  leaves 100 rows, the flag true and the offset 100; the one after asks for offset 100
  and leaves all 120 rows, the flag false and the offset 120.
\<close>

theorem initial_load_then_load_more:
  "(length contactsResult \<le> PAGE_SIZE \<and> length opportunitiesResult \<le> PAGE_SIZE \<longrightarrow>
      (let s' = fst (step s (InitialDataSettled refreshing settle (Inr contactsResult)
                       (Inr opportunitiesResult) (Inr contactCount) (Inr oppCount)))
       in contactOffset s' = length contactsResult
        \<and> opportunityOffset s' = length opportunitiesResult
        \<and> (enableContactInfiniteLoading s' \<longleftrightarrow> length contactsResult = PAGE_SIZE)
        \<and> (enableOpportunityInfiniteLoading s' \<longleftrightarrow> length opportunitiesResult = PAGE_SIZE)
        \<and> paginatedContacts s' = addRecordUrls contactsResult
        \<and> paginatedOpportunities s' = addRecordUrls opportunitiesResult
        \<and> totalContactCount s' = contactCount \<and> totalOpportunityCount s' = oppCount))
   \<and> (length contacts = 120 \<and> length opportunities = 120 \<longrightarrow>
      (let loaded = [ConnectedCallback,
             InitialDataSettled False settle
               (Inr (fetchPage contacts PAGE_SIZE 0)) (Inr (fetchPage opportunities PAGE_SIZE 0))
               (Inr (fetchCount contacts)) (Inr (fetchCount opportunities))];
           more1 = loaded @
             [ContactLoadMore, ContactLoadMoreSettled (Inr (fetchPage contacts PAGE_SIZE 50)),
              OpportunityLoadMore,
              OpportunityLoadMoreSettled (Inr (fetchPage opportunities PAGE_SIZE 50))];
           more2 = more1 @
             [ContactLoadMore, ContactLoadMoreSettled (Inr (fetchPage contacts PAGE_SIZE 100)),
              OpportunityLoadMore,
              OpportunityLoadMoreSettled (Inr (fetchPage opportunities PAGE_SIZE 100))];
           s1 = fst (run initial_component loaded);
           s2 = fst (run initial_component more1);
           s3 = fst (run initial_component more2)
       in PAGE_SIZE = 50
        \<and> snd (step initial_component ConnectedCallback)
            = [Apex_getRelatedContacts PAGE_SIZE 0, Apex_getRelatedOpportunities PAGE_SIZE 0,
               Apex_getContactCount, Apex_getOpportunityCount]
        \<and> snd (run initial_component loaded)
            = [Apex_getRelatedContacts PAGE_SIZE 0, Apex_getRelatedOpportunities PAGE_SIZE 0,
               Apex_getContactCount, Apex_getOpportunityCount]
        \<and> length (paginatedContacts s1) = 50 \<and> enableContactInfiniteLoading s1
        \<and> contactOffset s1 = 50
        \<and> length (paginatedOpportunities s1) = 50 \<and> enableOpportunityInfiniteLoading s1
        \<and> opportunityOffset s1 = 50
        \<and> snd (step s1 ContactLoadMore)
            = [DatatableIsLoading True, Apex_getRelatedContacts 50 50]
        \<and> snd (step s1 OpportunityLoadMore)
            = [DatatableIsLoading True, Apex_getRelatedOpportunities 50 50]
        \<and> length (paginatedContacts s2) = 100 \<and> enableContactInfiniteLoading s2
        \<and> contactOffset s2 = 100
        \<and> length (paginatedOpportunities s2) = 100 \<and> enableOpportunityInfiniteLoading s2
        \<and> opportunityOffset s2 = 100
        \<and> snd (step s2 ContactLoadMore)
            = [DatatableIsLoading True, Apex_getRelatedContacts 50 100]
        \<and> snd (step s2 OpportunityLoadMore)
            = [DatatableIsLoading True, Apex_getRelatedOpportunities 50 100]
        \<and> length (paginatedContacts s3) = 120 \<and> \<not> enableContactInfiniteLoading s3
        \<and> contactOffset s3 = 120
        \<and> length (paginatedOpportunities s3) = 120 \<and> \<not> enableOpportunityInfiniteLoading s3
        \<and> opportunityOffset s3 = 120
        \<and> paginatedContacts s3 = addRecordUrls contacts
        \<and> paginatedOpportunities s3 = addRecordUrls opportunities))"
proof (intro conjI impI)
  assume "length contactsResult \<le> PAGE_SIZE \<and> length opportunitiesResult \<le> PAGE_SIZE"
  then show "let s' = fst (step s (InitialDataSettled refreshing settle (Inr contactsResult)
                       (Inr opportunitiesResult) (Inr contactCount) (Inr oppCount)))
       in contactOffset s' = length contactsResult
        \<and> opportunityOffset s' = length opportunitiesResult
        \<and> (enableContactInfiniteLoading s' \<longleftrightarrow> length contactsResult = PAGE_SIZE)
        \<and> (enableOpportunityInfiniteLoading s' \<longleftrightarrow> length opportunitiesResult = PAGE_SIZE)
        \<and> paginatedContacts s' = addRecordUrls contactsResult
        \<and> paginatedOpportunities s' = addRecordUrls opportunitiesResult
        \<and> totalContactCount s' = contactCount \<and> totalOpportunityCount s' = oppCount"
    by (auto simp: handler_defs promise_all4_def Let_def)
next
  assume len: "length contacts = 120 \<and> length opportunities = 120"
  have c: "take 50 contacts @ take 50 (drop 50 contacts) @ drop 100 contacts = contacts"
    using len by (simp add: three_pages)
  have o: "take 50 opportunities @ take 50 (drop 50 opportunities) @ drop 100 opportunities
             = opportunities"
    using len by (simp add: three_pages)
  have c3: "addRecordUrls (take 50 contacts) @ addRecordUrls (take 50 (drop 50 contacts))
             @ addRecordUrls (drop 100 contacts) = addRecordUrls contacts"
    using c by (metis addRecordUrls_append)
  have o3: "addRecordUrls (take 50 opportunities)
             @ addRecordUrls (take 50 (drop 50 opportunities))
             @ addRecordUrls (drop 100 opportunities) = addRecordUrls opportunities"
    using o by (metis addRecordUrls_append)
  show "let loaded = [ConnectedCallback,
             InitialDataSettled False settle
               (Inr (fetchPage contacts PAGE_SIZE 0)) (Inr (fetchPage opportunities PAGE_SIZE 0))
               (Inr (fetchCount contacts)) (Inr (fetchCount opportunities))];
           more1 = loaded @
             [ContactLoadMore, ContactLoadMoreSettled (Inr (fetchPage contacts PAGE_SIZE 50)),
              OpportunityLoadMore,
              OpportunityLoadMoreSettled (Inr (fetchPage opportunities PAGE_SIZE 50))];
           more2 = more1 @
             [ContactLoadMore, ContactLoadMoreSettled (Inr (fetchPage contacts PAGE_SIZE 100)),
              OpportunityLoadMore,
              OpportunityLoadMoreSettled (Inr (fetchPage opportunities PAGE_SIZE 100))];
           s1 = fst (run initial_component loaded);
           s2 = fst (run initial_component more1);
           s3 = fst (run initial_component more2)
       in PAGE_SIZE = 50
        \<and> snd (step initial_component ConnectedCallback)
            = [Apex_getRelatedContacts PAGE_SIZE 0, Apex_getRelatedOpportunities PAGE_SIZE 0,
               Apex_getContactCount, Apex_getOpportunityCount]
        \<and> snd (run initial_component loaded)
            = [Apex_getRelatedContacts PAGE_SIZE 0, Apex_getRelatedOpportunities PAGE_SIZE 0,
               Apex_getContactCount, Apex_getOpportunityCount]
        \<and> length (paginatedContacts s1) = 50 \<and> enableContactInfiniteLoading s1
        \<and> contactOffset s1 = 50
        \<and> length (paginatedOpportunities s1) = 50 \<and> enableOpportunityInfiniteLoading s1
        \<and> opportunityOffset s1 = 50
        \<and> snd (step s1 ContactLoadMore)
            = [DatatableIsLoading True, Apex_getRelatedContacts 50 50]
        \<and> snd (step s1 OpportunityLoadMore)
            = [DatatableIsLoading True, Apex_getRelatedOpportunities 50 50]
        \<and> length (paginatedContacts s2) = 100 \<and> enableContactInfiniteLoading s2
        \<and> contactOffset s2 = 100
        \<and> length (paginatedOpportunities s2) = 100 \<and> enableOpportunityInfiniteLoading s2
        \<and> opportunityOffset s2 = 100
        \<and> snd (step s2 ContactLoadMore)
            = [DatatableIsLoading True, Apex_getRelatedContacts 50 100]
        \<and> snd (step s2 OpportunityLoadMore)
            = [DatatableIsLoading True, Apex_getRelatedOpportunities 50 100]
        \<and> length (paginatedContacts s3) = 120 \<and> \<not> enableContactInfiniteLoading s3
        \<and> contactOffset s3 = 120
        \<and> length (paginatedOpportunities s3) = 120 \<and> \<not> enableOpportunityInfiniteLoading s3
        \<and> opportunityOffset s3 = 120
        \<and> paginatedContacts s3 = addRecordUrls contacts
        \<and> paginatedOpportunities s3 = addRecordUrls opportunities"
    using len c3 o3
    by (simp add: handler_defs promise_all4_def Let_def initial_component_def fetchPage_def
          fetchCount_def PAGE_SIZE_def isContactSearchActive_def isOpportunitySearchActive_def)
qed

theorem initial_load_then_load_more_witness:
  "length [[(''Id'', JStr ''003A'')]] \<le> PAGE_SIZE \<and> length ([] :: row list) \<le> PAGE_SIZE
   \<and> contactOffset (fst (step initial_component
        (InitialDataSettled False [0, 1, 2, 3] (Inr [[(''Id'', JStr ''003A'')]]) (Inr [])
           (Inr 1) (Inr 0)))) = 1
   \<and> \<not> enableContactInfiniteLoading (fst (step initial_component
        (InitialDataSettled False [0, 1, 2, 3] (Inr [[(''Id'', JStr ''003A'')]]) (Inr [])
           (Inr 1) (Inr 0))))
   \<and> length (replicate 120 [(''Id'', JStr ''003A'')]) = 120
   \<and> snd (step initial_component ConnectedCallback)
       = [Apex_getRelatedContacts PAGE_SIZE 0, Apex_getRelatedOpportunities PAGE_SIZE 0,
          Apex_getContactCount, Apex_getOpportunityCount]
   \<and> contactOffset (fst (run initial_component
        [ConnectedCallback,
         InitialDataSettled False [0, 1, 2, 3]
           (Inr (fetchPage (replicate 120 [(''Id'', JStr ''003A'')]) PAGE_SIZE 0))
           (Inr (fetchPage (replicate 120 [(''Id'', JStr ''003A'')]) PAGE_SIZE 0))
           (Inr (fetchCount (replicate 120 [(''Id'', JStr ''003A'')])))
           (Inr (fetchCount (replicate 120 [(''Id'', JStr ''003A'')])))])) = 50"
proof -
  have h1: "length [[(''Id'', JStr ''003A'')]] \<le> PAGE_SIZE
          \<and> length ([] :: row list) \<le> PAGE_SIZE"
    by (simp add: PAGE_SIZE_def)
  have h2: "length (replicate 120 [(''Id'', JStr ''003A'')]) = 120
          \<and> length (replicate 120 [(''Id'', JStr ''003A'')]) = 120" by simp
  note t = initial_load_then_load_more[of "[[(''Id'', JStr ''003A'')]]" "[]"
      initial_component False "[0, 1, 2, 3]" 1 0
      "replicate 120 [(''Id'', JStr ''003A'')]" "replicate 120 [(''Id'', JStr ''003A'')]"]
  note g = t[THEN conjunct1, THEN mp, OF h1]
  note sc = t[THEN conjunct2, THEN mp, OF h2]
  have a: "contactOffset (fst (step initial_component
        (InitialDataSettled False [0, 1, 2, 3] (Inr [[(''Id'', JStr ''003A'')]]) (Inr [])
           (Inr 1) (Inr 0)))) = 1
   \<and> \<not> enableContactInfiniteLoading (fst (step initial_component
        (InitialDataSettled False [0, 1, 2, 3] (Inr [[(''Id'', JStr ''003A'')]]) (Inr [])
           (Inr 1) (Inr 0))))"
    using g by (simp add: Let_def PAGE_SIZE_def)
  have b: "contactOffset (fst (run initial_component
        [ConnectedCallback,
         InitialDataSettled False [0, 1, 2, 3]
           (Inr (fetchPage (replicate 120 [(''Id'', JStr ''003A'')]) PAGE_SIZE 0))
           (Inr (fetchPage (replicate 120 [(''Id'', JStr ''003A'')]) PAGE_SIZE 0))
           (Inr (fetchCount (replicate 120 [(''Id'', JStr ''003A'')])))
           (Inr (fetchCount (replicate 120 [(''Id'', JStr ''003A'')])))])) = 50"
    using sc unfolding Let_def by (elim conjE) assumption
  have c: "snd (step initial_component ConnectedCallback)
       = [Apex_getRelatedContacts PAGE_SIZE 0, Apex_getRelatedOpportunities PAGE_SIZE 0,
          Apex_getContactCount, Apex_getOpportunityCount]"
    using sc unfolding Let_def by (elim conjE) assumption
  show ?thesis using h1 h2 a b c by blast
qed

section \<open>The pagination invariant\<close>

lemma step_preserves_pagination_inv:
  assumes "pagination_inv s"
  shows "pagination_inv (fst (step s e))"
proof (cases e)
  case (ContactSort f d)
  then show ?thesis using assms
    by (auto simp: handler_defs pagination_inv_def Let_def split: sum.splits dest: sortData_length)
next
  case (OpportunitySort f d)
  then show ?thesis using assms
    by (auto simp: handler_defs pagination_inv_def Let_def split: sum.splits dest: sortData_length)
qed (use assms in \<open>auto simp: handler_defs pagination_inv_def Let_def
       split: sum.splits option.splits mutation.splits prod.splits if_splits\<close>)

text \<open>
  C4. Every event keeps each offset equal to the length of the paginated rows of its
  collection: the invariant holds when the component is created and after every run of
  events, whatever the order in which timers fire and promises settle.
\<close>

theorem offset_counts_paginated_rows:
  "(pagination_inv s \<longrightarrow> pagination_inv (fst (step s e)))
   \<and> pagination_inv initial_component
   \<and> pagination_inv (fst (run initial_component es))"
proof -
  have init: "pagination_inv initial_component"
    by (simp add: pagination_inv_def initial_component_def)
  have "pagination_inv (fst (run s0 es))" if "pagination_inv s0" for s0
    using that
  proof (induction es arbitrary: s0)
    case Nil
    then show ?case by simp
  next
    case (Cons e es)
    then show ?case
      using step_preserves_pagination_inv[of s0 e]
      by (simp add: fst_run_Cons del: run.simps)
  qed
  then show ?thesis using init step_preserves_pagination_inv by blast
qed

theorem offset_counts_paginated_rows_witness:
  "pagination_inv initial_component
   \<and> pagination_inv (fst (step initial_component
        (ContactLoadMoreSettled (Inr [[(''Id'', JStr ''003A'')]]))))"
proof -
  note t = offset_counts_paginated_rows[of initial_component
      "ContactLoadMoreSettled (Inr [[(''Id'', JStr ''003A'')]])" "[]"]
  have h: "pagination_inv initial_component" using t by blast
  from t[THEN conjunct1, THEN mp, OF h] h show ?thesis by blast
qed

section \<open>Load more\<close>

text \<open>
  C5. A load-more event outside search mode and with no load in flight sets the
  in-flight flag and requests one page at the current offset; in search mode, or with a
  load in flight, it changes nothing and requests nothing. When the page arrives, its
  rows (with their record links) are appended behind the rows already held, and the
  offset grows by the number of rows returned.
\<close>

theorem loadMore_appends:
  "(\<not> isContactSearchActive s \<and> \<not> contactsLoading s \<longrightarrow>
      step s ContactLoadMore =
        (s\<lparr>contactsLoading := True\<rparr>,
         [DatatableIsLoading True, Apex_getRelatedContacts PAGE_SIZE (contactOffset s)]))
   \<and> (isContactSearchActive s \<or> contactsLoading s \<longrightarrow> step s ContactLoadMore = (s, []))
   \<and> paginatedContacts (fst (step s (ContactLoadMoreSettled (Inr result))))
        = paginatedContacts s @ addRecordUrls result
   \<and> contactOffset (fst (step s (ContactLoadMoreSettled (Inr result))))
        = contactOffset s + length result
   \<and> (\<not> isOpportunitySearchActive s \<and> \<not> opportunitiesLoading s \<longrightarrow>
      step s OpportunityLoadMore =
        (s\<lparr>opportunitiesLoading := True\<rparr>,
         [DatatableIsLoading True,
          Apex_getRelatedOpportunities PAGE_SIZE (opportunityOffset s)]))
   \<and> (isOpportunitySearchActive s \<or> opportunitiesLoading s \<longrightarrow>
        step s OpportunityLoadMore = (s, []))
   \<and> paginatedOpportunities (fst (step s (OpportunityLoadMoreSettled (Inr result))))
        = paginatedOpportunities s @ addRecordUrls result
   \<and> opportunityOffset (fst (step s (OpportunityLoadMoreSettled (Inr result))))
        = opportunityOffset s + length result"
  by (simp add: handler_defs Let_def)

theorem loadMore_appends_witness:
  "\<not> isContactSearchActive initial_component \<and> \<not> contactsLoading initial_component
   \<and> step initial_component ContactLoadMore
       = (initial_component\<lparr>contactsLoading := True\<rparr>,
          [DatatableIsLoading True, Apex_getRelatedContacts PAGE_SIZE 0])
   \<and> contactsLoading (initial_component\<lparr>contactsLoading := True\<rparr>)
   \<and> step (initial_component\<lparr>contactsLoading := True\<rparr>) ContactLoadMore
       = (initial_component\<lparr>contactsLoading := True\<rparr>, [])
   \<and> \<not> isOpportunitySearchActive initial_component
   \<and> \<not> opportunitiesLoading initial_component
   \<and> step initial_component OpportunityLoadMore
       = (initial_component\<lparr>opportunitiesLoading := True\<rparr>,
          [DatatableIsLoading True, Apex_getRelatedOpportunities PAGE_SIZE 0])
   \<and> isOpportunitySearchActive (initial_component\<lparr>opportunitySearchTerm := ''acme''\<rparr>)
   \<and> step (initial_component\<lparr>opportunitySearchTerm := ''acme''\<rparr>) OpportunityLoadMore
       = (initial_component\<lparr>opportunitySearchTerm := ''acme''\<rparr>, [])"
proof -
  have h1: "\<not> isContactSearchActive initial_component \<and> \<not> contactsLoading initial_component"
    by (simp add: isContactSearchActive_def initial_component_def)
  have h2: "isContactSearchActive (initial_component\<lparr>contactsLoading := True\<rparr>)
          \<or> contactsLoading (initial_component\<lparr>contactsLoading := True\<rparr>)" by simp
  have h3: "\<not> isOpportunitySearchActive initial_component
          \<and> \<not> opportunitiesLoading initial_component"
    by (simp add: isOpportunitySearchActive_def initial_component_def)
  have a: "isOpportunitySearchActive (initial_component\<lparr>opportunitySearchTerm := ''acme''\<rparr>)"
    by (simp add: isOpportunitySearchActive_def trim_def is_space_def)
  then have h4: "isOpportunitySearchActive (initial_component\<lparr>opportunitySearchTerm := ''acme''\<rparr>)
          \<or> opportunitiesLoading (initial_component\<lparr>opportunitySearchTerm := ''acme''\<rparr>)"
    by simp
  have o: "contactOffset initial_component = 0" "opportunityOffset initial_component = 0"
    by (simp_all add: initial_component_def)
  note t1 = loadMore_appends[of initial_component "[]"]
  note t2 = loadMore_appends[of "initial_component\<lparr>contactsLoading := True\<rparr>" "[]"]
  note t4 = loadMore_appends[of "initial_component\<lparr>opportunitySearchTerm := ''acme''\<rparr>" "[]"]
  show ?thesis using t1 t2 t4 h1 h2 h3 h4 a o by simp
qed




section \<open>Save\<close>

text \<open>
  C7. When one update of the batch fails, the save ends with the error toast and with
  the state it started from: the draft values, the paginated rows and the search rows
  are untouched, and so is what is displayed. While the updates succeed the drafts are
  still there; they are cleared only once the notification that follows the updates has
  succeeded as well, and not when it fails.
\<close>

theorem save_failure_keeps_drafts:
  "(\<not> list_all (\<lambda>p. reason p = None) ps \<longrightarrow>
      run s [ContactSaveEvent draftValues, ContactUpdatesSettled draftValues settle ps]
        = (s\<lparr>isSaving := False\<rparr>,
           map Lds_updateRecord draftValues @ [ShowToast ''Error Updating Contacts'' ''error''])
      \<and> run s [OpportunitySaveEvent draftValues,
                OpportunityUpdatesSettled draftValues settle ps]
        = (s\<lparr>isSaving := False\<rparr>,
           map Lds_updateRecord draftValues
             @ [ShowToast ''Error Updating Opportunities'' ''error'']))
   \<and> (list_all (\<lambda>p. reason p = None) ps \<longrightarrow>
        contactDraftValues (fst (step s (ContactUpdatesSettled draftValues settle ps)))
          = contactDraftValues s
      \<and> opportunityDraftValues
          (fst (step s (OpportunityUpdatesSettled draftValues settle ps)))
          = opportunityDraftValues s)
   \<and> contactDraftValues (s\<lparr>isSaving := False\<rparr>) = contactDraftValues s
   \<and> opportunityDraftValues (s\<lparr>isSaving := False\<rparr>) = opportunityDraftValues s
   \<and> paginatedContacts (s\<lparr>isSaving := False\<rparr>) = paginatedContacts s
   \<and> paginatedOpportunities (s\<lparr>isSaving := False\<rparr>) = paginatedOpportunities s
   \<and> searchContacts (s\<lparr>isSaving := False\<rparr>) = searchContacts s
   \<and> searchOpportunities (s\<lparr>isSaving := False\<rparr>) = searchOpportunities s
   \<and> displayedContacts (s\<lparr>isSaving := False\<rparr>) = displayedContacts s
   \<and> displayedOpportunities (s\<lparr>isSaving := False\<rparr>) = displayedOpportunities s
   \<and> fst (step s (ContactNotifySettled draftValues (Inl error))) = s\<lparr>isSaving := False\<rparr>
   \<and> fst (step s (OpportunityNotifySettled draftValues (Inl error))) = s\<lparr>isSaving := False\<rparr>
   \<and> contactDraftValues (fst (step s (ContactNotifySettled draftValues (Inr ())))) = []
   \<and> opportunityDraftValues (fst (step s (OpportunityNotifySettled draftValues (Inr ())))) = []"
  by (simp add: handler_defs promise_all_def displayedContacts_def displayedOpportunities_def
        isContactSearchActive_def isOpportunitySearchActive_def)

theorem save_failure_keeps_drafts_witness:
  "\<not> list_all (\<lambda>p. reason p = None) [Inr (), Inl (ApexError ''locked'')]
   \<and> run initial_component
       [ContactSaveEvent [[(''Id'', JStr ''003A''), (''Title'', JStr ''CTO'')],
                          [(''Id'', JStr ''003B''), (''Title'', JStr ''CFO'')]],
        ContactUpdatesSettled [[(''Id'', JStr ''003A''), (''Title'', JStr ''CTO'')],
                               [(''Id'', JStr ''003B''), (''Title'', JStr ''CFO'')]] [1, 0]
          [Inr (), Inl (ApexError ''locked'')]]
     = (initial_component\<lparr>isSaving := False\<rparr>,
        [Lds_updateRecord [(''Id'', JStr ''003A''), (''Title'', JStr ''CTO'')],
         Lds_updateRecord [(''Id'', JStr ''003B''), (''Title'', JStr ''CFO'')],
         ShowToast ''Error Updating Contacts'' ''error''])
   \<and> list_all (\<lambda>p. reason p = None) [Inr () :: js_error + unit]
   \<and> contactDraftValues (fst (step initial_component
        (ContactUpdatesSettled [[(''Id'', JStr ''003A''), (''Title'', JStr ''CTO'')]] [0]
           [Inr ()])))
     = contactDraftValues initial_component"
proof -
  have h1: "\<not> list_all (\<lambda>p. reason p = None) [Inr (), Inl (ApexError ''locked'')]"
    by (simp add: reason_def)
  have h2: "list_all (\<lambda>p. reason p = None) [Inr () :: js_error + unit]"
    by (simp add: reason_def)
  note t1 = save_failure_keeps_drafts[of "[Inr (), Inl (ApexError ''locked'')]"
      initial_component "[[(''Id'', JStr ''003A''), (''Title'', JStr ''CTO'')],
                          [(''Id'', JStr ''003B''), (''Title'', JStr ''CFO'')]]" "[1, 0]"]
  note t2 = save_failure_keeps_drafts[of "[Inr ()]"
      initial_component "[[(''Id'', JStr ''003A''), (''Title'', JStr ''CTO'')]]" "[0]"]
  have a: "run initial_component
       [ContactSaveEvent [[(''Id'', JStr ''003A''), (''Title'', JStr ''CTO'')],
                          [(''Id'', JStr ''003B''), (''Title'', JStr ''CFO'')]],
        ContactUpdatesSettled [[(''Id'', JStr ''003A''), (''Title'', JStr ''CTO'')],
                               [(''Id'', JStr ''003B''), (''Title'', JStr ''CFO'')]] [1, 0]
          [Inr (), Inl (ApexError ''locked'')]]
     = (initial_component\<lparr>isSaving := False\<rparr>,
        [Lds_updateRecord [(''Id'', JStr ''003A''), (''Title'', JStr ''CTO'')],
         Lds_updateRecord [(''Id'', JStr ''003B''), (''Title'', JStr ''CFO'')],
         ShowToast ''Error Updating Contacts'' ''error''])"
    using t1[THEN conjunct1, THEN mp, OF h1] by simp
  have b: "contactDraftValues (fst (step initial_component
        (ContactUpdatesSettled [[(''Id'', JStr ''003A''), (''Title'', JStr ''CTO'')]] [0]
           [Inr ()])))
     = contactDraftValues initial_component"
    using t2[THEN conjunct2, THEN conjunct1, THEN mp, OF h2] by blast
  show ?thesis using h1 h2 a b by blast
qed

section \<open>Search\<close>

lemma contact_search_event_keeps_pagination:
  assumes "contact_search_event e"
  shows "paginatedContacts (fst (step s e)) = paginatedContacts s
       \<and> contactOffset (fst (step s e)) = contactOffset s
       \<and> enableContactInfiniteLoading (fst (step s e)) = enableContactInfiniteLoading s"
  using assms
  by (cases e rule: contact_search_event.cases)
     (auto simp: handler_defs Let_def split: sum.splits option.splits)

lemma opportunity_search_event_keeps_pagination:
  assumes "opportunity_search_event e"
  shows "paginatedOpportunities (fst (step s e)) = paginatedOpportunities s
       \<and> opportunityOffset (fst (step s e)) = opportunityOffset s
       \<and> enableOpportunityInfiniteLoading (fst (step s e)) = enableOpportunityInfiniteLoading s"
  using assms
  by (cases e rule: opportunity_search_event.cases)
     (auto simp: handler_defs Let_def split: sum.splits option.splits)

lemma contact_search_cycle_keeps_pagination:
  assumes "list_all contact_search_event es"
  shows "paginatedContacts (fst (run s es)) = paginatedContacts s
       \<and> contactOffset (fst (run s es)) = contactOffset s
       \<and> enableContactInfiniteLoading (fst (run s es)) = enableContactInfiniteLoading s"
  using assms
proof (induction es arbitrary: s)
  case Nil
  then show ?case by simp
next
  case (Cons e es)
  then show ?case
    using contact_search_event_keeps_pagination[of e s]
    by (simp add: fst_run_Cons del: run.simps)
qed

lemma opportunity_search_cycle_keeps_pagination:
  assumes "list_all opportunity_search_event es"
  shows "paginatedOpportunities (fst (run s es)) = paginatedOpportunities s
       \<and> opportunityOffset (fst (run s es)) = opportunityOffset s
       \<and> enableOpportunityInfiniteLoading (fst (run s es)) = enableOpportunityInfiniteLoading s"
  using assms
proof (induction es arbitrary: s)
  case Nil
  then show ?case by simp
next
  case (Cons e es)
  then show ?case
    using opportunity_search_event_keeps_pagination[of e s]
    by (simp add: fst_run_Cons del: run.simps)
qed

lemma clear_contact_search:
  assumes "trim v = []"
  shows "step s (ContactSearchInput v) =
           (s\<lparr>contactSearchTerm := v, contactDebounceTimer := None,
              searchContacts := [], isContactSearching := False\<rparr>, [])"
    and "displayedContacts (fst (step s (ContactSearchInput v))) = paginatedContacts s"
    and "step (fst (step s (ContactSearchInput v))) ContactTimerFired
           = (fst (step s (ContactSearchInput v)), [])"
  using assms
  by (simp_all add: handler_defs Let_def displayedContacts_def isContactSearchActive_def)

lemma clear_opportunity_search:
  assumes "trim v = []"
  shows "step s (OpportunitySearchInput v) =
           (s\<lparr>opportunitySearchTerm := v, opportunityDebounceTimer := None,
              searchOpportunities := [], isOpportunitySearching := False\<rparr>, [])"
    and "displayedOpportunities (fst (step s (OpportunitySearchInput v)))
           = paginatedOpportunities s"
    and "step (fst (step s (OpportunitySearchInput v))) OpportunityTimerFired
           = (fst (step s (OpportunitySearchInput v)), [])"
  using assms
  by (simp_all add: handler_defs Let_def displayedOpportunities_def
        isOpportunitySearchActive_def)

text \<open>
  C8. An input that trims to the empty string cancels the debounce timer, empties the
  search rows and requests nothing, at once: the rows displayed are the paginated rows,
  and a timer event that follows finds no timer and does nothing. No event of a search
  cycle touches the paginated rows, the offset or the infinite-loading flag, so that
  after any search cycle closed by such an input the rows displayed are the paginated
  rows the cycle started with.
\<close>

theorem clearing_search_restores_pagination:
  "(trim v = [] \<longrightarrow>
      step s (ContactSearchInput v) =
        (s\<lparr>contactSearchTerm := v, contactDebounceTimer := None,
           searchContacts := [], isContactSearching := False\<rparr>, [])
      \<and> displayedContacts (fst (step s (ContactSearchInput v))) = paginatedContacts s
      \<and> step (fst (step s (ContactSearchInput v))) ContactTimerFired
          = (fst (step s (ContactSearchInput v)), [])
      \<and> step s (OpportunitySearchInput v) =
        (s\<lparr>opportunitySearchTerm := v, opportunityDebounceTimer := None,
           searchOpportunities := [], isOpportunitySearching := False\<rparr>, [])
      \<and> displayedOpportunities (fst (step s (OpportunitySearchInput v)))
          = paginatedOpportunities s
      \<and> step (fst (step s (OpportunitySearchInput v))) OpportunityTimerFired
          = (fst (step s (OpportunitySearchInput v)), []))
   \<and> (list_all contact_search_event es \<longrightarrow>
        paginatedContacts (fst (run s es)) = paginatedContacts s
      \<and> contactOffset (fst (run s es)) = contactOffset s
      \<and> enableContactInfiniteLoading (fst (run s es)) = enableContactInfiniteLoading s)
   \<and> (list_all opportunity_search_event es \<longrightarrow>
        paginatedOpportunities (fst (run s es)) = paginatedOpportunities s
      \<and> opportunityOffset (fst (run s es)) = opportunityOffset s
      \<and> enableOpportunityInfiniteLoading (fst (run s es))
          = enableOpportunityInfiniteLoading s)
   \<and> (list_all contact_search_event es \<and> trim v = [] \<longrightarrow>
        displayedContacts (fst (run s (es @ [ContactSearchInput v]))) = paginatedContacts s)
   \<and> (list_all opportunity_search_event es \<and> trim v = [] \<longrightarrow>
        displayedOpportunities (fst (run s (es @ [OpportunitySearchInput v])))
          = paginatedOpportunities s)"
proof -
  have c: "displayedContacts (fst (run s (es @ [ContactSearchInput v]))) = paginatedContacts s"
    if "list_all contact_search_event es" "trim v = []"
    using clear_contact_search(2)[OF that(2), of "fst (run s es)"]
      contact_search_cycle_keeps_pagination[OF that(1), of s]
    by (simp add: fst_run_snoc)
  have o: "displayedOpportunities (fst (run s (es @ [OpportunitySearchInput v])))
             = paginatedOpportunities s"
    if "list_all opportunity_search_event es" "trim v = []"
    using clear_opportunity_search(2)[OF that(2), of "fst (run s es)"]
      opportunity_search_cycle_keeps_pagination[OF that(1), of s]
    by (simp add: fst_run_snoc)
  show ?thesis
    using c o clear_contact_search[of v s] clear_opportunity_search[of v s]
      contact_search_cycle_keeps_pagination[of es s]
      opportunity_search_cycle_keeps_pagination[of es s]
    by blast
qed

theorem clearing_search_restores_pagination_witness:
  "trim ''  '' = []
   \<and> list_all contact_search_event
       [ContactSearchInput ''a'', ContactTimerFired,
        ContactSearchSettled None ''a'' (Inr [[(''Id'', JStr ''003B'')]])]
   \<and> displayedContacts (fst (run
        (initial_component\<lparr>paginatedContacts := [[(''Id'', JStr ''003A'')]],
           contactOffset := 1\<rparr>)
        ([ContactSearchInput ''a'', ContactTimerFired,
          ContactSearchSettled None ''a'' (Inr [[(''Id'', JStr ''003B'')]])]
         @ [ContactSearchInput ''  ''])))
     = [[(''Id'', JStr ''003A'')]]
   \<and> list_all opportunity_search_event
       [OpportunitySearchInput ''a'', OpportunityTimerFired,
        OpportunitySearchSettled None ''a'' (Inr [[(''Id'', JStr ''006B'')]])]
   \<and> displayedOpportunities (fst (run
        (initial_component\<lparr>paginatedOpportunities := [[(''Id'', JStr ''006A'')]],
           opportunityOffset := 1\<rparr>)
        ([OpportunitySearchInput ''a'', OpportunityTimerFired,
          OpportunitySearchSettled None ''a'' (Inr [[(''Id'', JStr ''006B'')]])]
         @ [OpportunitySearchInput ''  ''])))
     = [[(''Id'', JStr ''006A'')]]"
proof -
  have v: "trim ''  '' = []" by (simp add: trim_def is_space_def)
  have c: "list_all contact_search_event
       [ContactSearchInput ''a'', ContactTimerFired,
        ContactSearchSettled None ''a'' (Inr [[(''Id'', JStr ''003B'')]])]" by simp
  have o: "list_all opportunity_search_event
       [OpportunitySearchInput ''a'', OpportunityTimerFired,
        OpportunitySearchSettled None ''a'' (Inr [[(''Id'', JStr ''006B'')]])]" by simp
  note t1 = clearing_search_restores_pagination[of "''  ''"
      "initial_component\<lparr>paginatedContacts := [[(''Id'', JStr ''003A'')]], contactOffset := 1\<rparr>"
      "[ContactSearchInput ''a'', ContactTimerFired,
        ContactSearchSettled None ''a'' (Inr [[(''Id'', JStr ''003B'')]])]"]
  note t2 = clearing_search_restores_pagination[of "''  ''"
      "initial_component\<lparr>paginatedOpportunities := [[(''Id'', JStr ''006A'')]],
         opportunityOffset := 1\<rparr>"
      "[OpportunitySearchInput ''a'', OpportunityTimerFired,
        OpportunitySearchSettled None ''a'' (Inr [[(''Id'', JStr ''006B'')]])]"]
  have a: "displayedContacts (fst (run
        (initial_component\<lparr>paginatedContacts := [[(''Id'', JStr ''003A'')]],
           contactOffset := 1\<rparr>)
        ([ContactSearchInput ''a'', ContactTimerFired,
          ContactSearchSettled None ''a'' (Inr [[(''Id'', JStr ''003B'')]])]
         @ [ContactSearchInput ''  ''])))
     = [[(''Id'', JStr ''003A'')]]"
    using t1 v c by simp
  have b: "displayedOpportunities (fst (run
        (initial_component\<lparr>paginatedOpportunities := [[(''Id'', JStr ''006A'')]],
           opportunityOffset := 1\<rparr>)
        ([OpportunitySearchInput ''a'', OpportunityTimerFired,
          OpportunitySearchSettled None ''a'' (Inr [[(''Id'', JStr ''006B'')]])]
         @ [OpportunitySearchInput ''  ''])))
     = [[(''Id'', JStr ''006A'')]]"
    using t2 v o by simp
  show ?thesis using v c o a b by blast
qed

text \<open>
  A search result is applied exactly when the term it was requested for is still the
  trimmed term of the input; when the searches for \<open>a\<close> and \<open>ab\<close> both succeed and the
  one for \<open>a\<close> settles last, the rows are those of \<open>ab\<close>.
\<close>

lemma stale_result_is_dropped:
  assumes "trim (contactSearchTerm s) \<noteq> term"
  shows "searchContacts (fst (step s (ContactSearchSettled awaiting term (Inr result))))
           = searchContacts s"
  using assms by (cases awaiting) (simp_all add: handler_defs)

lemma current_result_is_applied:
  assumes "trim (contactSearchTerm s) = term"
  shows "searchContacts (fst (step s (ContactSearchSettled awaiting term (Inr result))))
           = addRecordUrls result"
  using assms by (cases awaiting) (simp_all add: handler_defs)

lemma trim_a: "trim ''a'' = ''a''" by (simp add: trim_def is_space_def)

lemma trim_ab: "trim ''ab'' = ''ab''" by (simp add: trim_def is_space_def)

lemma last_term_wins:
  "run initial_component
     [ContactSearchInput ''a'', ContactTimerFired, ContactSearchInput ''ab'', ContactTimerFired,
      ContactSearchSettled None ''ab'' (Inr result_ab),
      ContactSearchSettled None ''a'' (Inr result_a)]
   = (initial_component\<lparr>contactSearchTerm := ''ab'', searchContacts := addRecordUrls result_ab\<rparr>,
      [Apex_searchContacts ''a'', Apex_searchContacts ''ab''])"
  by (simp add: handler_defs initial_component_def Let_def trim_a trim_ab)

text \<open>
  C1. The guard on the term covers the result of a search, not its failure: the
  \<^verbatim>\<open>catch\<close> branch of \<^verbatim>\<open>_executeContactSearch\<close> and of
  \<^verbatim>\<open>_executeOpportunitySearch\<close> empties the search rows whatever the term. When the
  search for \<open>a\<close> fails after the search for \<open>ab\<close> has delivered its rows, the term is
  still \<open>ab\<close> and the rows of \<open>ab\<close> are gone.
\<close>

theorem stale_failed_search_clears_rows:
  "run initial_component
     [ContactSearchInput ''a'', ContactTimerFired, ContactSearchInput ''ab'', ContactTimerFired,
      ContactSearchSettled None ''ab'' (Inr [[(''Id'', JStr ''003A''), (''Name'', JStr ''Abe'')]])]
   = (initial_component\<lparr>contactSearchTerm := ''ab'',
        searchContacts := [[(''Id'', JStr ''003A''), (''Name'', JStr ''Abe''),
                            (''recordUrl'', JStr ''/003A'')]]\<rparr>,
      [Apex_searchContacts ''a'', Apex_searchContacts ''ab''])
   \<and> run initial_component
     [ContactSearchInput ''a'', ContactTimerFired, ContactSearchInput ''ab'', ContactTimerFired,
      ContactSearchSettled None ''ab'' (Inr [[(''Id'', JStr ''003A''), (''Name'', JStr ''Abe'')]]),
      ContactSearchSettled None ''a'' (Inl (ApexError ''timeout''))]
   = (initial_component\<lparr>contactSearchTerm := ''ab'', searchContacts := []\<rparr>,
      [Apex_searchContacts ''a'', Apex_searchContacts ''ab'',
       ConsoleError ''Error searching contacts:''])
   \<and> run initial_component
     [OpportunitySearchInput ''a'', OpportunityTimerFired,
      OpportunitySearchInput ''ab'', OpportunityTimerFired,
      OpportunitySearchSettled None ''ab''
        (Inr [[(''Id'', JStr ''006A''), (''Name'', JStr ''Abacus'')]]),
      OpportunitySearchSettled None ''a'' (Inl (ApexError ''timeout''))]
   = (initial_component\<lparr>opportunitySearchTerm := ''ab'', searchOpportunities := []\<rparr>,
      [Apex_searchOpportunities ''a'', Apex_searchOpportunities ''ab'',
       ConsoleError ''Error searching opportunities:''])"
  by (simp add: handler_defs initial_component_def Let_def trim_a trim_ab addRecordUrls_def
        get_field_def)

end
